theory Spec2Isabelle
  imports Main "HOL-Library.Word" "HOL-Library.AList" "HOL-Library.Sublist"
begin

section \<open>Python values, exceptions and events\<close>

text \<open>
  The development embeds \<^verbatim>\<open>downloader_core.py\<close>: the class \<^verbatim>\<open>DownloadManager\<close> with its
  methods \<^verbatim>\<open>_yt_dlp_hook\<close>, \<^verbatim>\<open>_download_video_audio\<close>, \<^verbatim>\<open>_download_image\<close>,
  \<^verbatim>\<open>download_content\<close> and \<^verbatim>\<open>_run_download_task\<close> (a leading underscore is dropped
  from the names). Python strings are \<^typ>\<open>string\<close>, with characters below 256; byte
  strings are lists of 8-bit words; Python integers are \<^typ>\<open>int\<close>.

  The libraries that the source calls are modelled in two ways. Pure functions of the
  standard library (\<^verbatim>\<open>urlparse\<close>, \<^verbatim>\<open>os.path\<close>, \<^verbatim>\<open>int\<close>, float formatting) are
  functions here, written after CPython 3.11. What depends on the outside world (the
  file system, the network, the extraction engine) is a parameter, the environment, so
  that every property holds for all behaviours of these.
\<close>

type_synonym bytes = "8 word list"

text \<open>The values that occur in the dictionaries of the source.\<close>

datatype pyval =
    PyStr string
  | PyInt int
  | PyBool bool
  | PyList "pyval list"
  | PyDict "(string \<times> pyval) list"
  | PyBoundMethod string

type_synonym pydict = "(string \<times> pyval) list"

text \<open>
  Exceptions, by the two classes that the \<^verbatim>\<open>except\<close> clauses of the source tell apart:
  an instance of \<^verbatim>\<open>requests.exceptions.RequestException\<close>, or any other instance of
  \<^verbatim>\<open>Exception\<close>. The string is \<^verbatim>\<open>str(e)\<close>.
\<close>

datatype exn = RequestException string | Exception string

fun str_exn :: "exn \<Rightarrow> string" where
  "str_exn (RequestException s) = s"
| "str_exn (Exception s) = s"

text \<open>
  What the presentation layer observes: one entry per call of a callback, with the
  argument of the call.
\<close>

datatype event = Progress pydict | Completion string | Error string

fun is_progress :: "event \<Rightarrow> bool" where
  "is_progress (Progress d) = True"
| "is_progress _ = False"

fun is_outcome :: "event \<Rightarrow> bool" where
  "is_outcome (Progress d) = False"
| "is_outcome _ = True"

text \<open>
  A callback attribute holds \<^verbatim>\<open>None\<close> or a callable. A callable is described by what a
  call of it does to the caller: for each argument it returns, or raises the exception
  given.
\<close>

datatype callback = PyNone | Callable "event \<Rightarrow> exn option"

text \<open>The truth value of a callback attribute in \<^verbatim>\<open>if self.progress_callback:\<close>.\<close>

fun truthy :: "callback \<Rightarrow> bool" where
  "truthy PyNone = False"
| "truthy (Callable g) = True"

section \<open>Library functions used by the source\<close>

subsection \<open>\<^verbatim>\<open>urllib.parse.urlparse(url).path\<close>\<close>

definition scheme_chars :: string where
  "scheme_chars = ''abcdefghijklmnopqrstuvwxyzABCDEFGHIJKLMNOPQRSTUVWXYZ0123456789+-.''"

definition uses_params :: "string list" where
  "uses_params = ['''', ''ftp'', ''hdl'', ''prospero'', ''http'', ''imap'', ''https'', ''shttp'',
     ''rtsp'', ''rtsps'', ''rtspu'', ''sip'', ''sips'', ''mms'', ''sftp'', ''tel'']"

definition is_c0_control_or_space :: "char \<Rightarrow> bool" where
  "is_c0_control_or_space c = ((of_char c :: nat) \<le> 32)"

definition is_unsafe_url_byte :: "char \<Rightarrow> bool" where
  "is_unsafe_url_byte c = (c = CHR 0x09 \<or> c = CHR 0x0D \<or> c = CHR 0x0A)"

definition is_ascii_alpha :: "char \<Rightarrow> bool" where
  "is_ascii_alpha c = (let n = (of_char c :: nat) in (65 \<le> n \<and> n \<le> 90) \<or> (97 \<le> n \<and> n \<le> 122))"

definition ascii_lower :: "char \<Rightarrow> char" where
  "ascii_lower c = (let n = (of_char c :: nat) in if 65 \<le> n \<and> n \<le> 90 then char_of (n + 32) else c)"

text \<open>
  The scheme of \<^verbatim>\<open>urlsplit\<close>: the text before the first colon, when it is not empty,
  starts with an ASCII letter and consists of scheme characters.
\<close>

definition split_scheme :: "string \<Rightarrow> string \<times> string" where
  "split_scheme url =
     (if CHR '':'' \<in> set url then
        (let pre = takeWhile (\<lambda>c. c \<noteq> CHR '':'') url in
         if pre \<noteq> [] \<and> is_ascii_alpha (hd pre) \<and> (\<forall>c \<in> set pre. c \<in> set scheme_chars)
         then (map ascii_lower pre, drop (length pre + 1) url)
         else ('''', url))
      else ('''', url))"

definition is_netloc_delim :: "char \<Rightarrow> bool" where
  "is_netloc_delim c = (c = CHR ''/'' \<or> c = CHR ''?'' \<or> c = CHR ''#'')"

text \<open>\<^verbatim>\<open>_splitnetloc(url, 2)\<close>, called when the text starts with two slashes.\<close>

definition splitnetloc :: "string \<Rightarrow> string \<times> string" where
  "splitnetloc url =
     (let netloc = takeWhile (\<lambda>c. \<not> is_netloc_delim c) (drop 2 url)
      in (netloc, drop (2 + length netloc) url))"

text \<open>The text after the last slash; all of it when there is no slash.\<close>

fun after_last_slash :: "string \<Rightarrow> string" where
  "after_last_slash [] = []"
| "after_last_slash (c # cs) =
     (if CHR ''/'' \<in> set cs then after_last_slash cs
      else if c = CHR ''/'' then cs else c # cs)"

text \<open>
  The first component of \<^verbatim>\<open>_splitparams\<close>: with a slash in the text, the first
  semicolon after the last slash ends it; without one, the first semicolon.
\<close>

definition splitparams :: "string \<Rightarrow> string" where
  "splitparams url =
     (if CHR ''/'' \<in> set url then
        (let seg = after_last_slash url in
         if CHR '';'' \<in> set seg
         then take (length url - length seg) url @ takeWhile (\<lambda>c. c \<noteq> CHR '';'') seg
         else url)
      else takeWhile (\<lambda>c. c \<noteq> CHR '';'') url)"

text \<open>
  The network location and the path of \<^verbatim>\<open>urlparse(url)\<close>. The checks of the network
  location that make \<^verbatim>\<open>urlsplit\<close> raise \<^verbatim>\<open>ValueError\<close> are a parameter of the
  environment, applied by the caller to the first component.
\<close>

definition urlparse_netloc_path :: "string \<Rightarrow> string \<times> string" where
  "urlparse_netloc_path url0 =
     (let url = filter (\<lambda>c. \<not> is_unsafe_url_byte c) (dropWhile is_c0_control_or_space url0);
          (scheme, url) = split_scheme url;
          (netloc, url) = (if take 2 url = ''//'' then splitnetloc url else ('''', url));
          url = takeWhile (\<lambda>c. c \<noteq> CHR ''#'') url;
          url = takeWhile (\<lambda>c. c \<noteq> CHR ''?'') url;
          url = (if scheme \<in> set uses_params \<and> CHR '';'' \<in> set url then splitparams url else url)
      in (netloc, url))"

subsection \<open>\<^verbatim>\<open>os.path\<close> (POSIX flavour)\<close>

definition os_path_basename :: "string \<Rightarrow> string" where
  "os_path_basename p = after_last_slash p"

definition os_path_join :: "string \<Rightarrow> string \<Rightarrow> string" where
  "os_path_join a b =
     (if take 1 b = ''/'' then b
      else if a = [] \<or> last a = CHR ''/'' then a @ b
      else a @ ''/'' @ b)"

subsection \<open>\<^verbatim>\<open>int(s)\<close> for a string\<close>

text \<open>
  Base-10 conversion: white space around the literal is dropped, a sign may come first,
  and the digits may be separated by single underscores. \<^verbatim>\<open>max_digits\<close> is
  \<^verbatim>\<open>sys.get_int_max_str_digits()\<close>; 0 switches the limit off. \<^verbatim>\<open>None\<close> stands for
  \<^verbatim>\<open>ValueError\<close>.
\<close>

definition is_int_space :: "char \<Rightarrow> bool" where
  "is_int_space c = (let n = (of_char c :: nat) in (9 \<le> n \<and> n \<le> 13) \<or> n = 32 \<or> n = 133 \<or> n = 160)"

definition is_digit :: "char \<Rightarrow> bool" where
  "is_digit c = (let n = (of_char c :: nat) in 48 \<le> n \<and> n \<le> 57)"

definition py_strip :: "string \<Rightarrow> string" where
  "py_strip s = rev (dropWhile is_int_space (rev (dropWhile is_int_space s)))"

fun digits_value :: "string \<Rightarrow> bool \<Rightarrow> nat \<Rightarrow> nat option" where
  "digits_value [] after_underscore acc = (if after_underscore then None else Some acc)"
| "digits_value (c # cs) after_underscore acc =
     (if c = CHR ''_'' then (if after_underscore then None else digits_value cs True acc)
      else if is_digit c then digits_value cs False (acc * 10 + (of_char c - 48))
      else None)"

definition py_int :: "nat \<Rightarrow> string \<Rightarrow> int option" where
  "py_int max_digits s =
     (let t = py_strip s;
          (negative, t) = (if take 1 t = ''+'' then (False, drop 1 t)
                           else if take 1 t = ''-'' then (True, drop 1 t)
                           else (False, t))
      in case digits_value t True 0 of
           None \<Rightarrow> None
         | Some n \<Rightarrow>
             if max_digits \<noteq> 0 \<and> max_digits < length (filter is_digit t) then None
             else Some (if negative then - int n else int n))"

subsection \<open>\<^verbatim>\<open>f"{downloaded_size / total_size * 100:.1f}%"\<close>\<close>

text \<open>
  Binary floating point, computed exactly on integers. A finite double is
  \<^verbatim>\<open>Float m e\<close>, the number \<open>m * 2^e\<close>. Division of two integers and
  multiplication round to the nearest double, ties to the even mantissa; formatting
  rounds the exact binary value to one decimal, ties to the even digit. Both operands of
  the division are positive where the source evaluates it.
\<close>

datatype pyfloat = Float int int | Inf

definition shl :: "int \<Rightarrow> int \<Rightarrow> int" where
  "shl n k = n * 2 ^ nat k"

definition rne_div :: "int \<Rightarrow> int \<Rightarrow> int" where
  "rne_div n d =
     (let q = n div d; r = n mod d
      in if 2 * r < d then q else if d < 2 * r then q + 1
         else if even q then q else q + 1)"

function bit_length :: "int \<Rightarrow> int" where
  "bit_length n = (if n \<le> 0 then 0 else 1 + bit_length (n div 2))"
  by pat_completeness auto
termination
  by (relation "measure nat") auto

definition ilog2_frac :: "int \<Rightarrow> int \<Rightarrow> int" where
  "ilog2_frac n d =
     (let k = bit_length n - bit_length d
      in if shl d k \<le> shl n (- k) then k else k - 1)"

definition round_double :: "int \<Rightarrow> int \<Rightarrow> int \<times> int" where
  "round_double n d =
     (let e = max (ilog2_frac n d - 52) (- 1074)
      in (rne_div (shl n (- e)) (shl d e), e))"

definition int_true_div :: "int \<Rightarrow> int \<Rightarrow> exn + pyfloat" where
  "int_true_div a b =
     (if b = 0 then Inl (Exception ''division by zero'')
      else (let (m, e) = round_double a b
            in if 2 ^ 1024 \<le> shl m e
               then Inl (Exception ''integer division result too large for a float'')
               else Inr (Float m e)))"

fun float_mul_100 :: "pyfloat \<Rightarrow> pyfloat" where
  "float_mul_100 (Float m e) =
     (let (m', e') = round_double (shl (100 * m) e) (shl 1 (- e))
      in if 2 ^ 1024 \<le> shl m' e' then Inf else Float m' e')"
| "float_mul_100 Inf = Inf"

function show_dec :: "int \<Rightarrow> string" where
  "show_dec n = (if n < 10 then [char_of (48 + n)] else show_dec (n div 10) @ [char_of (48 + n mod 10)])"
  by pat_completeness auto
termination
  by (relation "measure nat") auto

fun format_1f :: "pyfloat \<Rightarrow> string" where
  "format_1f (Float m e) =
     (let t = rne_div (shl (10 * m) e) (shl 1 (- e))
      in show_dec (t div 10) @ ''.'' @ show_dec (t mod 10))"
| "format_1f Inf = ''inf''"

definition percent_str :: "int \<Rightarrow> int \<Rightarrow> exn + string" where
  "percent_str downloaded_size total_size =
     (case int_true_div downloaded_size total_size of
        Inl e \<Rightarrow> Inl e
      | Inr x \<Rightarrow> Inr (format_1f (float_mul_100 x) @ ''%''))"

section \<open>The environment\<close>

text \<open>
  What the libraries and the outside world do is a parameter. A response of
  \<^verbatim>\<open>requests.get(url, stream=True, timeout=10)\<close> is described by what the source reads of
  it: the exception of \<^verbatim>\<open>raise_for_status()\<close> if it raises,
  \<^verbatim>\<open>headers.get('content-length')\<close>, the chunks that \<^verbatim>\<open>iter_content(chunk_size=8192)\<close>
  yields, and the exception that ends the iteration if it fails.
\<close>

record response =
  http_error :: "exn option"
  content_length :: "string option"
  chunks :: "bytes list"
  stream_error :: "exn option"

text \<open>
  A run of \<^verbatim>\<open>YoutubeDL(ydl_opts).download([url])\<close>: the dictionaries passed to the
  progress hook, in order, and the exception that leaves the \<^verbatim>\<open>with\<close> block, if any.
  The engine calls the hook itself, so what it does when the hook raises (end the
  download with that exception, report it, or go on) is its own affair: the run is given
  for each behaviour of the hook, a function that tells for every dictionary whether the
  hook returns or which exception it raises.
\<close>

record engine_run =
  hook_calls :: "pydict list"
  raised :: "exn option"

text \<open>
  The environment of a call:
  \<^item> \<^verbatim>\<open>isdir\<close> is \<^verbatim>\<open>os.path.isdir\<close>;
  \<^item> \<^verbatim>\<open>requests_get\<close> gives the response of \<^verbatim>\<open>requests.get\<close> for a URL, or the exception
    it raises;
  \<^item> \<^verbatim>\<open>netloc_error\<close> gives the \<^verbatim>\<open>ValueError\<close> of \<^verbatim>\<open>urlsplit\<close> for a network location that
    it refuses;
  \<^item> \<^verbatim>\<open>int_max_str_digits\<close> is the limit of the interpreter on the digits of an integer
    literal, and \<^verbatim>\<open>int_error_text\<close> the text of the \<^verbatim>\<open>ValueError\<close> of \<^verbatim>\<open>int\<close> for a string;
  \<^item> \<^verbatim>\<open>open_error\<close> gives the exception of \<^verbatim>\<open>open(path, 'wb')\<close> when it fails,
    \<^verbatim>\<open>write_error\<close> that of \<^verbatim>\<open>f.write\<close> on a file that holds the given number of bytes,
    \<^verbatim>\<open>close_error\<close> that of closing the file;
  \<^item> \<^verbatim>\<open>ydl_download\<close> gives the run of the extraction engine for the options, the list
    of URLs and the behaviour of the progress hook.
\<close>

record env =
  isdir :: "string \<Rightarrow> bool"
  requests_get :: "string \<Rightarrow> exn + response"
  netloc_error :: "string \<Rightarrow> exn option"
  int_max_str_digits :: nat
  int_error_text :: "string \<Rightarrow> string"
  open_error :: "string \<Rightarrow> exn option"
  write_error :: "string \<Rightarrow> nat \<Rightarrow> exn option"
  close_error :: "string \<Rightarrow> exn option"
  ydl_download :: "pydict \<Rightarrow> string list \<Rightarrow> (pydict \<Rightarrow> exn option) \<Rightarrow> engine_run"

section \<open>The download manager\<close>

text \<open>
  The first four fields are the attributes of \<^verbatim>\<open>DownloadManager\<close>. The others record
  what the object does to the world: the calls of the callbacks, the worker threads
  started and not yet run (with the arguments of \<^verbatim>\<open>_run_download_task\<close>), the files
  written, and the calls of \<^verbatim>\<open>requests.get\<close> and of the extraction engine. A worker
  thread runs its target in one step.
\<close>

record manager =
  progress_callback :: callback
  completion_callback :: callback
  error_callback :: callback
  is_downloading :: bool
  events :: "event list"
  threads :: "(string \<times> string \<times> string) list"
  files :: "string \<rightharpoonup> bytes"
  http_calls :: "string list"
  ydl_calls :: "(pydict \<times> string list) list"

text \<open>\<^verbatim>\<open>__init__\<close>; an argument that is not passed is \<^verbatim>\<open>None\<close> here and takes its default.\<close>

definition default_arg :: "callback option \<Rightarrow> callback" where
  "default_arg a = (case a of None \<Rightarrow> PyNone | Some f \<Rightarrow> f)"

definition DownloadManager :: "callback option \<Rightarrow> callback option \<Rightarrow> callback option \<Rightarrow> manager" where
  "DownloadManager progress completion error =
     \<lparr> progress_callback = default_arg progress,
       completion_callback = default_arg completion,
       error_callback = default_arg error,
       is_downloading = False,
       events = [], threads = [], files = Map.empty, http_calls = [], ydl_calls = [] \<rparr>"

subsection \<open>Statements that may raise\<close>

text \<open>
  A statement maps the state to the state after it and either a value or the exception
  it raised.
\<close>

type_synonym 'a py = "manager \<Rightarrow> (exn + 'a) \<times> manager"

definition py_return :: "'a \<Rightarrow> 'a py" where
  "py_return x m = (Inr x, m)"

definition py_lift :: "exn + 'a \<Rightarrow> 'a py" where
  "py_lift r m = (r, m)"

definition py_check :: "exn option \<Rightarrow> unit py" where
  "py_check r m = (case r of None \<Rightarrow> (Inr (), m) | Some e \<Rightarrow> (Inl e, m))"

definition py_bind :: "'a py \<Rightarrow> ('a \<Rightarrow> 'b py) \<Rightarrow> 'b py" where
  "py_bind f g m = (case f m of (Inl e, m') \<Rightarrow> (Inl e, m') | (Inr x, m') \<Rightarrow> g x m')"

definition none_not_callable :: string where
  "none_not_callable = [CHR 0x27] @ ''NoneType'' @ [CHR 0x27] @ '' object is not callable''"

text \<open>
  Calling the value of a callback attribute. Calling \<^verbatim>\<open>None\<close> raises \<^verbatim>\<open>TypeError\<close>. A
  callable receives the argument, which is recorded, and then returns or raises.
\<close>

definition call :: "callback \<Rightarrow> event \<Rightarrow> unit py" where
  "call f ev m =
     (case f of
        PyNone \<Rightarrow> (Inl (Exception none_not_callable), m)
      | Callable g \<Rightarrow>
          (case g ev of
             None \<Rightarrow> (Inr (), m\<lparr>events := events m @ [ev]\<rparr>)
           | Some e \<Rightarrow> (Inl e, m\<lparr>events := events m @ [ev]\<rparr>)))"

subsection \<open>\<^verbatim>\<open>_yt_dlp_hook\<close> and \<^verbatim>\<open>_download_video_audio\<close>\<close>

definition yt_dlp_hook :: "pydict \<Rightarrow> unit py" where
  "yt_dlp_hook d m =
     (if truthy (progress_callback m) then call (progress_callback m) (Progress d) m
      else py_return () m)"

definition dict_update :: "pydict \<Rightarrow> pydict \<Rightarrow> pydict" where
  "dict_update d other = fold (\<lambda>(k, v). AList.update k v) other d"

definition ydl_opts :: "string \<Rightarrow> string \<Rightarrow> pydict" where
  "ydl_opts output_path download_type =
     (let opts =
        [(''outtmpl'', PyStr (os_path_join output_path ''%(title)s.%(ext)s'')),
         (''progress_hooks'', PyList [PyBoundMethod ''_yt_dlp_hook'']),
         (''retries'', PyInt 3),
         (''fragment_retries'', PyInt 3),
         (''ignoreerrors'', PyBool True),
         (''format'', PyStr ''bestvideo[ext=mp4]+bestaudio[ext=m4a]/best[ext=mp4]/best'')]
      in if download_type = ''audio'' then
           dict_update opts
             [(''format'', PyStr ''bestaudio/best''),
              (''postprocessors'',
                 PyList [PyDict [(''key'', PyStr ''FFmpegExtractAudio''),
                                 (''preferredcodec'', PyStr ''mp3''),
                                 (''preferredquality'', PyStr ''192'')]]),
              (''extract_audio'', PyBool True)]
         else opts)"

text \<open>What the hook does for a dictionary, as the engine sees it.\<close>

definition hook_outcome :: "manager \<Rightarrow> pydict \<Rightarrow> exn option" where
  "hook_outcome m d = (case fst (yt_dlp_hook d m) of Inl e \<Rightarrow> Some e | Inr u \<Rightarrow> None)"

text \<open>
  The engine calls the registered hook once for each progress dictionary of its run. An
  exception of the hook goes to the engine, not to the caller of the engine.
\<close>

fun run_hooks :: "pydict list \<Rightarrow> unit py" where
  "run_hooks [] m = (Inr (), m)"
| "run_hooks (d # ds) m = run_hooks ds (snd (yt_dlp_hook d m))"

text \<open>\<^verbatim>\<open>with yt_dlp.YoutubeDL(ydl_opts) as ydl: ydl.download([url])\<close>\<close>

definition youtube_dl_download :: "env \<Rightarrow> pydict \<Rightarrow> string list \<Rightarrow> unit py" where
  "youtube_dl_download env opts urls m =
     (let run = ydl_download env opts urls (hook_outcome m)
      in py_bind (run_hooks (hook_calls run)) (\<lambda>u. py_check (raised run))
           (m\<lparr>ydl_calls := ydl_calls m @ [(opts, urls)]\<rparr>))"

text \<open>The \<^verbatim>\<open>try\<close> block of \<^verbatim>\<open>_download_video_audio\<close>.\<close>

definition download_video_audio_try :: "env \<Rightarrow> string \<Rightarrow> string \<Rightarrow> string \<Rightarrow> unit py" where
  "download_video_audio_try env url output_path download_type =
     py_bind (youtube_dl_download env (ydl_opts output_path download_type) [url]) (\<lambda>u m.
       if truthy (completion_callback m)
       then call (completion_callback m)
              (Completion (''Download complete for '' @ url @ '' (check '' @ output_path @ '')'')) m
       else py_return () m)"

definition download_video_audio :: "env \<Rightarrow> string \<Rightarrow> string \<Rightarrow> string \<Rightarrow> unit py" where
  "download_video_audio env url output_path download_type m =
     (case (case download_video_audio_try env url output_path download_type m of
              (Inl e, m1) \<Rightarrow>
                (if truthy (error_callback m1)
                 then call (error_callback m1)
                        (Error (''Error downloading '' @ url @ '': '' @ str_exn e)) m1
                 else py_return () m1)
            | (Inr u, m1) \<Rightarrow> (Inr u, m1)) of
        (r, m2) \<Rightarrow> (r, m2\<lparr>is_downloading := False\<rparr>))"

subsection \<open>\<^verbatim>\<open>_download_image\<close>\<close>

definition http_get :: "env \<Rightarrow> string \<Rightarrow> response py" where
  "http_get env url m = (requests_get env url, m\<lparr>http_calls := http_calls m @ [url]\<rparr>)"

definition urlparse_path :: "env \<Rightarrow> string \<Rightarrow> exn + string" where
  "urlparse_path env url =
     (let (netloc, path) = urlparse_netloc_path url
      in case netloc_error env netloc of Some e \<Rightarrow> Inl e | None \<Rightarrow> Inr path)"

text \<open>\<^verbatim>\<open>int(response.headers.get('content-length', 0))\<close>\<close>

definition content_length_int :: "env \<Rightarrow> response \<Rightarrow> exn + int" where
  "content_length_int env response =
     (case content_length response of
        None \<Rightarrow> Inr 0
      | Some s \<Rightarrow>
          (case py_int (int_max_str_digits env) s of
             None \<Rightarrow> Inl (Exception (int_error_text env s))
           | Some n \<Rightarrow> Inr n))"

text \<open>\<^verbatim>\<open>f.write(chunk)\<close>; the environment decides from the bytes written so far whether it fails.\<close>

definition file_write :: "env \<Rightarrow> string \<Rightarrow> bytes \<Rightarrow> unit py" where
  "file_write env file_path chunk m =
     (let old = (case files m file_path of None \<Rightarrow> [] | Some b \<Rightarrow> b)
      in case write_error env file_path (length old) of
           Some e \<Rightarrow> (Inl e, m)
         | None \<Rightarrow> (Inr (), m\<lparr>files := (files m)(file_path \<mapsto> old @ chunk)\<rparr>))"

text \<open>The call of the progress callback in the loop, with the dictionary built for it.\<close>

definition report_progress :: "int \<Rightarrow> int \<Rightarrow> unit py" where
  "report_progress total_size downloaded_size m =
     (if truthy (progress_callback m) then
        py_bind
          (py_lift (if 0 < total_size then percent_str downloaded_size total_size else Inr ''N/A''))
          (\<lambda>percent.
             call (progress_callback m)
               (Progress [(''status'', PyStr ''downloading''),
                          (''total_bytes'', PyInt total_size),
                          (''downloaded_bytes'', PyInt downloaded_size),
                          (''_percent_str'', PyStr percent),
                          (''_eta_str'', PyStr ''N/A'')])) m
      else py_return () m)"

text \<open>The loop over the chunks, from the current value of \<^verbatim>\<open>downloaded_size\<close>.\<close>

fun write_chunks :: "env \<Rightarrow> string \<Rightarrow> int \<Rightarrow> int \<Rightarrow> bytes list \<Rightarrow> unit py" where
  "write_chunks env file_path total_size downloaded_size [] m = (Inr (), m)"
| "write_chunks env file_path total_size downloaded_size (chunk # rest) m =
     (if chunk = [] then write_chunks env file_path total_size downloaded_size rest m
      else
        (case file_write env file_path chunk m of
           (Inl e, m1) \<Rightarrow> (Inl e, m1)
         | (Inr u, m1) \<Rightarrow>
             (case report_progress total_size (downloaded_size + int (length chunk)) m1 of
                (Inl e, m2) \<Rightarrow> (Inl e, m2)
              | (Inr u, m2) \<Rightarrow>
                  write_chunks env file_path total_size (downloaded_size + int (length chunk)) rest m2)))"

text \<open>
  \<^verbatim>\<open>with open(file_path, 'wb') as f\<close>: the file is created empty, the body runs, and the
  file is closed whether or not the body raised; an exception of the closing replaces
  the one of the body.
\<close>

definition with_open :: "env \<Rightarrow> string \<Rightarrow> unit py \<Rightarrow> unit py" where
  "with_open env file_path body m =
     (case open_error env file_path of
        Some e \<Rightarrow> (Inl e, m)
      | None \<Rightarrow>
          (case body (m\<lparr>files := (files m)(file_path \<mapsto> [])\<rparr>) of
             (r, m1) \<Rightarrow>
               (case close_error env file_path of
                  Some e \<Rightarrow> (Inl e, m1)
                | None \<Rightarrow> (r, m1))))"

definition image_filename :: "string \<Rightarrow> string" where
  "image_filename parsed_path =
     (let filename = os_path_basename parsed_path
      in if filename = [] \<or> CHR ''.'' \<notin> set filename then ''downloaded_image.jpg'' else filename)"

text \<open>The \<^verbatim>\<open>try\<close> block of \<^verbatim>\<open>_download_image\<close>.\<close>

definition download_image_try :: "env \<Rightarrow> string \<Rightarrow> string \<Rightarrow> unit py" where
  "download_image_try env url output_path =
     py_bind (http_get env url) (\<lambda>response.
     py_bind (py_check (http_error response)) (\<lambda>u.
     py_bind (py_lift (urlparse_path env url)) (\<lambda>parsed_path.
       (let filename = image_filename parsed_path;
            file_path = os_path_join output_path filename
        in
     py_bind (py_lift (content_length_int env response)) (\<lambda>total_size.
     py_bind
       (with_open env file_path
          (py_bind (write_chunks env file_path total_size 0 (chunks response))
             (\<lambda>u. py_check (stream_error response))))
       (\<lambda>u m.
          if truthy (completion_callback m)
          then call (completion_callback m) (Completion file_path) m
          else py_return () m))))))"

definition download_image :: "env \<Rightarrow> string \<Rightarrow> string \<Rightarrow> unit py" where
  "download_image env url output_path m =
     (case (case download_image_try env url output_path m of
              (Inl (RequestException s), m1) \<Rightarrow>
                (if truthy (error_callback m1)
                 then call (error_callback m1)
                        (Error (''Network error downloading image from '' @ url @ '': '' @ s)) m1
                 else py_return () m1)
            | (Inl (Exception s), m1) \<Rightarrow>
                (if truthy (error_callback m1)
                 then call (error_callback m1)
                        (Error (''Error downloading image from '' @ url @ '': '' @ s)) m1
                 else py_return () m1)
            | (Inr u, m1) \<Rightarrow> (Inr u, m1)) of
        (r, m2) \<Rightarrow> (r, m2\<lparr>is_downloading := False\<rparr>))"

subsection \<open>\<^verbatim>\<open>download_content\<close> and \<^verbatim>\<open>_run_download_task\<close>\<close>

text \<open>Creating and starting the thread adds it to the started threads.\<close>

definition download_content :: "env \<Rightarrow> string \<Rightarrow> string \<Rightarrow> string \<Rightarrow> unit py" where
  "download_content env url download_type output_dir m =
     (if is_downloading m then
        (if truthy (error_callback m)
         then call (error_callback m) (Error ''A download is already in progress. Please wait.'') m
         else py_return () m)
      else if \<not> isdir env output_dir then
        (if truthy (error_callback m)
         then call (error_callback m) (Error (''Output directory does not exist: '' @ output_dir)) m
         else py_return () m)
      else
        (Inr (), m\<lparr>is_downloading := True,
                   threads := threads m @ [(url, download_type, output_dir)]\<rparr>))"

definition run_download_task :: "env \<Rightarrow> string \<Rightarrow> string \<Rightarrow> string \<Rightarrow> unit py" where
  "run_download_task env url download_type output_dir m =
     (if download_type \<in> set [''video'', ''audio'']
      then download_video_audio env url output_dir download_type m
      else if download_type = ''image''
      then download_image env url output_dir m
      else
        py_bind
          (\<lambda>m. if truthy (error_callback m)
                then call (error_callback m) (Error (''Invalid download type: '' @ download_type)) m
                else py_return () m)
          (\<lambda>u m. (Inr (), m\<lparr>is_downloading := False\<rparr>)) m)"

text \<open>
  The oldest started thread runs its target to the end. The result is the exception
  that ends the thread, if one does.
\<close>

definition thread_run :: "env \<Rightarrow> unit py" where
  "thread_run env m =
     (case threads m of
        [] \<Rightarrow> (Inr (), m)
      | (url, download_type, output_dir) # ts \<Rightarrow>
          run_download_task env url download_type output_dir (m\<lparr>threads := ts\<rparr>))"

section \<open>Notions used in the statements\<close>

text \<open>Putting events in front of the log.\<close>

definition shift :: "event list \<Rightarrow> manager \<Rightarrow> manager" where
  "shift pre m = m\<lparr>events := pre @ events m\<rparr>"

text \<open>The events that a statement delivers: those it leaves in an empty log.\<close>

definition emitted :: "'a py \<Rightarrow> manager \<Rightarrow> event list" where
  "emitted f m = events (snd (f (m\<lparr>events := []\<rparr>)))"

text \<open>A statement is stable when it only appends to the log, never reads it, and keeps the
  callback attributes.\<close>

definition stable :: "'a py \<Rightarrow> bool" where
  "stable f \<longleftrightarrow>
     (\<forall>pre m. f (shift pre m) = (fst (f m), shift pre (snd (f m)))) \<and>
     (\<forall>m. progress_callback (snd (f m)) = progress_callback m \<and>
          completion_callback (snd (f m)) = completion_callback m \<and>
          error_callback (snd (f m)) = error_callback m)"

text \<open>What a guarded call of a callback attribute gives its caller: nothing happens when
  the attribute is \<^verbatim>\<open>None\<close>, otherwise the callable returns or raises.\<close>

definition guarded_result :: "callback \<Rightarrow> event \<Rightarrow> exn + unit" where
  "guarded_result f ev =
     (case f of
        PyNone \<Rightarrow> Inr ()
      | Callable g \<Rightarrow> (case g ev of None \<Rightarrow> Inr () | Some e \<Rightarrow> Inl e))"

text \<open>The event that a guarded call delivers.\<close>

definition delivered :: "callback \<Rightarrow> event \<Rightarrow> event list" where
  "delivered f ev = (if truthy f then [ev] else [])"

text \<open>The values of \<^verbatim>\<open>downloaded_size\<close> after each chunk that is not empty, from a start
  value.\<close>

fun sums_from :: "int \<Rightarrow> bytes list \<Rightarrow> int list" where
  "sums_from d [] = []"
| "sums_from d (c # cs) =
     (if c = [] then sums_from d cs
      else (d + int (length c)) # sums_from (d + int (length c)) cs)"

text \<open>The dictionary that \<^verbatim>\<open>_download_image\<close> passes to the progress callback.\<close>

definition progress_dict :: "int \<Rightarrow> int \<Rightarrow> string \<Rightarrow> pydict" where
  "progress_dict total_size downloaded_size percent =
     [(''status'', PyStr ''downloading''),
      (''total_bytes'', PyInt total_size),
      (''downloaded_bytes'', PyInt downloaded_size),
      (''_percent_str'', PyStr percent),
      (''_eta_str'', PyStr ''N/A'')]"

text \<open>The value of its \<^verbatim>\<open>_percent_str\<close> entry, or the exception of the division.\<close>

definition percent_field :: "int \<Rightarrow> int \<Rightarrow> exn + string" where
  "percent_field total_size downloaded_size =
     (if 0 < total_size then percent_str downloaded_size total_size else Inr ''N/A'')"

text \<open>The progress event for a total size and a downloaded size, if the dictionary can be
  built.\<close>

definition expected_report :: "int \<Rightarrow> int \<Rightarrow> event option" where
  "expected_report total_size downloaded_size =
     (case percent_field total_size downloaded_size of
        Inl e \<Rightarrow> None
      | Inr p \<Rightarrow> Some (Progress (progress_dict total_size downloaded_size p)))"

text \<open>The \<^verbatim>\<open>with\<close> statement of \<^verbatim>\<open>_download_image\<close> with its loop.\<close>

definition stream_to_file :: "env \<Rightarrow> string \<Rightarrow> int \<Rightarrow> response \<Rightarrow> unit py" where
  "stream_to_file env fp T resp =
     with_open env fp (py_bind (write_chunks env fp T 0 (chunks resp)) (\<lambda>u. py_check (stream_error resp)))"

text \<open>The \<^verbatim>\<open>try\<close> block of \<^verbatim>\<open>_download_image\<close> up to the end of its \<^verbatim>\<open>with\<close> statement, before
  the completion callback. Its value is \<^verbatim>\<open>file_path\<close>.\<close>

definition image_fetch :: "env \<Rightarrow> string \<Rightarrow> string \<Rightarrow> string py" where
  "image_fetch env url output_path =
     py_bind (http_get env url) (\<lambda>response.
     py_bind (py_check (http_error response)) (\<lambda>u.
     py_bind (py_lift (urlparse_path env url)) (\<lambda>parsed_path.
     py_bind (py_lift (content_length_int env response)) (\<lambda>total_size.
     py_bind
       (stream_to_file env (os_path_join output_path (image_filename parsed_path)) total_size response)
       (\<lambda>u. py_return (os_path_join output_path (image_filename parsed_path)))))))"

text \<open>The file path that \<^verbatim>\<open>_download_image\<close> computes for a URL and a directory.\<close>

definition image_target :: "string \<Rightarrow> string \<Rightarrow> string" where
  "image_target url output_path =
     os_path_join output_path (image_filename (snd (urlparse_netloc_path url)))"

text \<open>The message of the error callback of \<^verbatim>\<open>_download_image\<close> for an exception.\<close>

definition image_error_message :: "string \<Rightarrow> exn \<Rightarrow> string" where
  "image_error_message url e =
     (case e of
        RequestException s \<Rightarrow> ''Network error downloading image from '' @ url @ '': '' @ s
      | Exception s \<Rightarrow> ''Error downloading image from '' @ url @ '': '' @ s)"

text \<open>\<^verbatim>\<open>_download_image\<close> without its \<^verbatim>\<open>finally\<close> clause: the \<^verbatim>\<open>try\<close> block and the \<^verbatim>\<open>except\<close>
  clauses. Its final state is the state in which the \<^verbatim>\<open>finally\<close> clause starts.\<close>

definition download_image_except :: "env \<Rightarrow> string \<Rightarrow> string \<Rightarrow> unit py" where
  "download_image_except env url output_path m =
     (case download_image_try env url output_path m of
        (Inl e, m1) \<Rightarrow>
          (if truthy (error_callback m1)
           then call (error_callback m1) (Error (image_error_message url e)) m1
           else py_return () m1)
      | (Inr u, m1) \<Rightarrow> (Inr u, m1))"

text \<open>What the progress events of an image download have to be: none without a progress
  callback, without a response or without a total size; otherwise the reports for the
  first downloaded sizes.\<close>

definition image_progress_ok :: "env \<Rightarrow> string \<Rightarrow> manager \<Rightarrow> event list \<Rightarrow> bool" where
  "image_progress_ok env url m prog \<longleftrightarrow>
     (\<not> truthy (progress_callback m) \<longrightarrow> prog = []) \<and>
     (case requests_get env url of
        Inl e \<Rightarrow> prog = []
      | Inr resp \<Rightarrow>
          (case content_length_int env resp of
             Inl e \<Rightarrow> prog = []
           | Inr T \<Rightarrow> (\<exists>n. map Some prog = map (expected_report T) (take n (sums_from 0 (chunks resp))))))"

text \<open>The outcome events of an image download: an exception of the \<^verbatim>\<open>try\<close> block goes to the
  error callback; otherwise the completion callback is called, inside the \<^verbatim>\<open>try\<close> block, so
  that an exception it raises goes to the error callback as well.\<close>

definition image_outcome :: "env \<Rightarrow> string \<Rightarrow> string \<Rightarrow> manager \<Rightarrow> event list" where
  "image_outcome env url dir m =
     (case fst (image_fetch env url dir m) of
        Inl e \<Rightarrow> delivered (error_callback m) (Error (image_error_message url e))
      | Inr fp \<Rightarrow>
          delivered (completion_callback m) (Completion fp) @
          (case guarded_result (completion_callback m) (Completion fp) of
             Inl e \<Rightarrow> delivered (error_callback m) (Error (image_error_message url e))
           | Inr u \<Rightarrow> []))"

text \<open>The exception that leaves \<^verbatim>\<open>_download_image\<close>, if one does: one raised by the error
  callback.\<close>

definition image_result :: "env \<Rightarrow> string \<Rightarrow> string \<Rightarrow> manager \<Rightarrow> exn + unit" where
  "image_result env url dir m =
     (case fst (image_fetch env url dir m) of
        Inl e \<Rightarrow> guarded_result (error_callback m) (Error (image_error_message url e))
      | Inr fp \<Rightarrow>
          (case guarded_result (completion_callback m) (Completion fp) of
             Inl e \<Rightarrow> guarded_result (error_callback m) (Error (image_error_message url e))
           | Inr u \<Rightarrow> Inr ()))"

text \<open>The run of the extraction engine in \<^verbatim>\<open>_download_video_audio\<close>.\<close>

definition video_run :: "env \<Rightarrow> string \<Rightarrow> string \<Rightarrow> string \<Rightarrow> manager \<Rightarrow> engine_run" where
  "video_run env url output_path download_type m =
     ydl_download env (ydl_opts output_path download_type) [url] (hook_outcome m)"

text \<open>The messages of the callbacks of \<^verbatim>\<open>_download_video_audio\<close>.\<close>

definition video_message :: "string \<Rightarrow> string \<Rightarrow> string" where
  "video_message url output_path = ''Download complete for '' @ url @ '' (check '' @ output_path @ '')''"

definition video_error_message :: "string \<Rightarrow> exn \<Rightarrow> string" where
  "video_error_message url e = ''Error downloading '' @ url @ '': '' @ str_exn e"

text \<open>\<^verbatim>\<open>_download_video_audio\<close> without its \<^verbatim>\<open>finally\<close> clause.\<close>

definition download_video_audio_except :: "env \<Rightarrow> string \<Rightarrow> string \<Rightarrow> string \<Rightarrow> unit py" where
  "download_video_audio_except env url output_path download_type m =
     (case download_video_audio_try env url output_path download_type m of
        (Inl e, m1) \<Rightarrow>
          (if truthy (error_callback m1)
           then call (error_callback m1) (Error (video_error_message url e)) m1
           else py_return () m1)
      | (Inr u, m1) \<Rightarrow> (Inr u, m1))"

text \<open>The outcome events of a video or audio download, and the exception that leaves
  \<^verbatim>\<open>_download_video_audio\<close>, if one does.\<close>

definition video_outcome :: "env \<Rightarrow> string \<Rightarrow> string \<Rightarrow> string \<Rightarrow> manager \<Rightarrow> event list" where
  "video_outcome env url output_path download_type m =
     (case raised (video_run env url output_path download_type m) of
        Some e \<Rightarrow> delivered (error_callback m) (Error (video_error_message url e))
      | None \<Rightarrow>
          delivered (completion_callback m) (Completion (video_message url output_path)) @
          (case guarded_result (completion_callback m) (Completion (video_message url output_path)) of
             Inl e \<Rightarrow> delivered (error_callback m) (Error (video_error_message url e))
           | Inr u \<Rightarrow> []))"

definition video_result :: "env \<Rightarrow> string \<Rightarrow> string \<Rightarrow> string \<Rightarrow> manager \<Rightarrow> exn + unit" where
  "video_result env url output_path download_type m =
     (case raised (video_run env url output_path download_type m) of
        Some e \<Rightarrow> guarded_result (error_callback m) (Error (video_error_message url e))
      | None \<Rightarrow>
          (case guarded_result (completion_callback m) (Completion (video_message url output_path)) of
             Inl e \<Rightarrow> guarded_result (error_callback m) (Error (video_error_message url e))
           | Inr u \<Rightarrow> Inr ()))"

text \<open>The events of a video or audio download.\<close>

definition video_events :: "env \<Rightarrow> string \<Rightarrow> string \<Rightarrow> string \<Rightarrow> manager \<Rightarrow> event list" where
  "video_events env url output_path download_type m =
     (if truthy (progress_callback m)
      then map Progress (hook_calls (video_run env url output_path download_type m)) else []) @
     video_outcome env url output_path download_type m"

text \<open>The events of \<^verbatim>\<open>_run_download_task\<close> for an unknown download type.\<close>

definition invalid_type_events :: "string \<Rightarrow> manager \<Rightarrow> event list" where
  "invalid_type_events download_type m =
     delivered (error_callback m) (Error (''Invalid download type: '' @ download_type))"

text \<open>The byte count of a progress event, when its dictionary has one.\<close>

fun downloaded_bytes :: "event \<Rightarrow> int option" where
  "downloaded_bytes (Progress d) =
     (case map_of d ''downloaded_bytes'' of Some (PyInt n) \<Rightarrow> Some n | _ \<Rightarrow> None)"
| "downloaded_bytes _ = None"

text \<open>The byte counts in a sequence of events, in order.\<close>

definition progress_bytes :: "event list \<Rightarrow> int list" where
  "progress_bytes evs = List.map_filter downloaded_bytes evs"

text \<open>The outcome events of \<^verbatim>\<open>_run_download_task\<close>, and the exception that leaves it, if
  one does.\<close>

definition task_outcome :: "env \<Rightarrow> string \<Rightarrow> string \<Rightarrow> string \<Rightarrow> manager \<Rightarrow> event list" where
  "task_outcome env url download_type output_dir m =
     (if download_type = ''video'' \<or> download_type = ''audio''
      then video_outcome env url output_dir download_type m
      else if download_type = ''image'' then image_outcome env url output_dir m
      else invalid_type_events download_type m)"

definition task_result :: "env \<Rightarrow> string \<Rightarrow> string \<Rightarrow> string \<Rightarrow> manager \<Rightarrow> exn + unit" where
  "task_result env url download_type output_dir m =
     (if download_type = ''video'' \<or> download_type = ''audio''
      then video_result env url output_dir download_type m
      else if download_type = ''image'' then image_result env url output_dir m
      else guarded_result (error_callback m) (Error (''Invalid download type: '' @ download_type)))"

text \<open>A handler that returns for every argument, and one that raises for every argument.\<close>

definition returning_handler :: callback where
  "returning_handler = Callable (\<lambda>ev. None)"

definition failing_handler :: callback where
  "failing_handler = Callable (\<lambda>ev. Some (Exception ''handler failed''))"

text \<open>A manager with the three callbacks registered, as \<^verbatim>\<open>main.py\<close> creates it; the
  handlers return.\<close>

definition listening_manager :: manager where
  "listening_manager =
     DownloadManager (Some returning_handler) (Some returning_handler) (Some returning_handler)"

text \<open>A manager created without arguments.\<close>

definition silent_manager :: manager where
  "silent_manager = DownloadManager None None None"

text \<open>A response of 1000 bytes in two chunks of 500.\<close>

definition two_chunk_response :: response where
  "two_chunk_response =
     \<lparr> http_error = None, content_length = Some ''1000'',
       chunks = [replicate 500 0, replicate 500 0], stream_error = None \<rparr>"

text \<open>A run of the engine that downloads two streams one after the other: the byte count of
  the second starts again.\<close>

definition two_stream_run :: engine_run where
  "two_stream_run =
     \<lparr> hook_calls =
         [[(''status'', PyStr ''downloading''), (''downloaded_bytes'', PyInt 500)],
          [(''status'', PyStr ''downloading''), (''downloaded_bytes'', PyInt 100)]],
       raised = None \<rparr>"

text \<open>An environment in which \<^verbatim>\<open>/tmp/out\<close> is the only directory and every operation
  succeeds.\<close>

definition scenario_env :: env where
  "scenario_env =
     \<lparr> isdir = (\<lambda>d. d = ''/tmp/out''),
       requests_get = (\<lambda>url. Inr two_chunk_response),
       netloc_error = (\<lambda>netloc. None),
       int_max_str_digits = 4300,
       int_error_text = (\<lambda>s. ''invalid literal for int() with base 10''),
       open_error = (\<lambda>p. None),
       write_error = (\<lambda>p n. None),
       close_error = (\<lambda>p. None),
       ydl_download = (\<lambda>opts urls hook. two_stream_run) \<rparr>"

text \<open>An environment in which the network is down.\<close>

definition offline_env :: env where
  "offline_env =
     \<lparr> isdir = (\<lambda>d. d = ''/tmp/out''),
       requests_get = (\<lambda>url. Inl (RequestException ''connection refused'')),
       netloc_error = (\<lambda>netloc. None),
       int_max_str_digits = 4300,
       int_error_text = (\<lambda>s. ''invalid literal for int() with base 10''),
       open_error = (\<lambda>p. None),
       write_error = (\<lambda>p n. None),
       close_error = (\<lambda>p. None),
       ydl_download =
         (\<lambda>opts urls hook. \<lparr> hook_calls = [], raised = Some (Exception ''unable to download'') \<rparr>) \<rparr>"

text \<open>The manager after it has accepted a request.\<close>

definition busy_manager :: manager where
  "busy_manager =
     snd (download_content scenario_env ''https://example.com/x.jpg'' ''image'' ''/tmp/out''
            listening_manager)"

text \<open>The message of a rejection while busy.\<close>

definition busy_message :: string where
  "busy_message = ''A download is already in progress. Please wait.''"


section \<open>Properties\<close>

subsection \<open>Statements and the log of events\<close>

lemma call_truthy:
  "truthy f \<Longrightarrow> call f ev m = (guarded_result f ev, m\<lparr>events := events m @ [ev]\<rparr>)"
  by (cases f) (simp_all add: call_def guarded_result_def split: option.splits)

lemma guarded_call:
  "(if truthy f then call f ev m else py_return () m) =
     (guarded_result f ev, m\<lparr>events := events m @ delivered f ev\<rparr>)"
  by (cases f) (simp_all add: call_def py_return_def guarded_result_def delivered_def split: option.splits)

lemma guarded_result_None [simp]: "\<not> truthy f \<Longrightarrow> guarded_result f ev = Inr ()"
  by (cases f) (simp_all add: guarded_result_def)

lemma delivered_simps [simp]:
  "\<not> truthy f \<Longrightarrow> delivered f ev = []"
  "truthy f \<Longrightarrow> delivered f ev = [ev]"
  by (simp_all add: delivered_def)

lemma shift_simps:
  "progress_callback (shift pre m) = progress_callback m"
  "completion_callback (shift pre m) = completion_callback m"
  "error_callback (shift pre m) = error_callback m"
  "is_downloading (shift pre m) = is_downloading m"
  "threads (shift pre m) = threads m"
  "files (shift pre m) = files m"
  "http_calls (shift pre m) = http_calls m"
  "ydl_calls (shift pre m) = ydl_calls m"
  "events (shift pre m) = pre @ events m"
  by (simp_all add: shift_def)

lemma stableI:
  assumes "\<And>pre m. f (shift pre m) = (fst (f m), shift pre (snd (f m)))"
    and "\<And>m. progress_callback (snd (f m)) = progress_callback m"
    and "\<And>m. completion_callback (snd (f m)) = completion_callback m"
    and "\<And>m. error_callback (snd (f m)) = error_callback m"
  shows "stable f"
  using assms by (simp add: stable_def)

lemma stable_shift: "stable f \<Longrightarrow> f (shift pre m) = (fst (f m), shift pre (snd (f m)))"
  by (simp add: stable_def)

lemma stable_callbacks:
  assumes "stable f"
  shows "progress_callback (snd (f m)) = progress_callback m"
    and "completion_callback (snd (f m)) = completion_callback m"
    and "error_callback (snd (f m)) = error_callback m"
  using assms by (simp_all add: stable_def)

lemma stable_lift: "stable (py_lift r)"
  by (simp add: stable_def py_lift_def)

lemma stable_check: "stable (py_check r)"
  by (simp add: stable_def py_check_def split: option.splits)

lemma stable_bind:
  assumes f: "stable f" and g: "\<And>x. stable (g x)"
  shows "stable (py_bind f g)"
proof (rule stableI)
  fix pre m
  obtain r m1 where fm: "f m = (r, m1)" by (cases "f m")
  have sh: "f (shift pre m) = (r, shift pre m1)"
    using stable_shift [OF f, of pre m] fm by simp
  show "py_bind f g (shift pre m) = (fst (py_bind f g m), shift pre (snd (py_bind f g m)))"
  proof (cases r)
    case (Inl e)
    then show ?thesis using fm sh by (simp add: py_bind_def)
  next
    case (Inr x)
    then show ?thesis using fm sh stable_shift [OF g, of x pre m1] by (simp add: py_bind_def)
  qed
next
  fix m
  obtain r m1 where fm: "f m = (r, m1)" by (cases "f m")
  have c1: "progress_callback m1 = progress_callback m" "completion_callback m1 = completion_callback m"
    "error_callback m1 = error_callback m"
    using stable_callbacks [OF f, of m] fm by simp_all
  show "progress_callback (snd (py_bind f g m)) = progress_callback m"
    using fm c1 stable_callbacks(1) [OF g, of _ m1] by (cases r) (simp_all add: py_bind_def)
  show "completion_callback (snd (py_bind f g m)) = completion_callback m"
    using fm c1 stable_callbacks(2) [OF g, of _ m1] by (cases r) (simp_all add: py_bind_def)
  show "error_callback (snd (py_bind f g m)) = error_callback m"
    using fm c1 stable_callbacks(3) [OF g, of _ m1] by (cases r) (simp_all add: py_bind_def)
qed

lemma stable_if_completion:
  "stable (\<lambda>m. if truthy (completion_callback m) then call (completion_callback m) ev m else py_return () m)"
  by (simp add: stable_def guarded_call shift_def)

lemma stable_if_error:
  "stable (\<lambda>m. if truthy (error_callback m) then call (error_callback m) ev m else py_return () m)"
  by (simp add: stable_def guarded_call shift_def)

lemma events_extend:
  assumes "stable f"
  shows "events (snd (f m)) = events m @ emitted f m"
proof -
  have "m = shift (events m) (m\<lparr>events := []\<rparr>)" by (simp add: shift_def)
  then have "f m = f (shift (events m) (m\<lparr>events := []\<rparr>))" by simp
  also have "\<dots> = (fst (f (m\<lparr>events := []\<rparr>)), shift (events m) (snd (f (m\<lparr>events := []\<rparr>))))"
    by (rule stable_shift [OF assms])
  finally show ?thesis by (simp add: emitted_def shift_def)
qed

lemma result_independent:
  assumes "stable f"
  shows "fst (f (m\<lparr>events := evs\<rparr>)) = fst (f m)"
proof -
  have a: "m = shift (events m) (m\<lparr>events := []\<rparr>)" by (simp add: shift_def)
  have b: "m\<lparr>events := evs\<rparr> = shift evs (m\<lparr>events := []\<rparr>)" by (simp add: shift_def)
  have "fst (f (shift evs (m\<lparr>events := []\<rparr>))) = fst (f (shift (events m) (m\<lparr>events := []\<rparr>)))"
    by (simp add: stable_shift [OF assms])
  then show ?thesis using a b by simp
qed

lemma run_with_log:
  assumes "stable f"
  shows "f (m\<lparr>events := evs\<rparr>) = (fst (f m), (snd (f m))\<lparr>events := evs @ emitted f m\<rparr>)"
proof -
  let ?m0 = "m\<lparr>events := []\<rparr>"
  have a: "m = shift (events m) ?m0" and b: "m\<lparr>events := evs\<rparr> = shift evs ?m0"
    by (simp_all add: shift_def)
  have fm: "f m = (fst (f ?m0), shift (events m) (snd (f ?m0)))"
    using stable_shift [OF assms, of "events m" ?m0] a by simp
  have "f (m\<lparr>events := evs\<rparr>) = (fst (f ?m0), shift evs (snd (f ?m0)))"
    using stable_shift [OF assms, of evs ?m0] b by simp
  then show ?thesis using fm by (simp add: emitted_def shift_def)
qed

subsection \<open>The loop over the chunks\<close>

lemma report_progress_alt:
  "report_progress T D m =
     (if truthy (progress_callback m) then
        (case percent_field T D of
           Inl e \<Rightarrow> (Inl e, m)
         | Inr p \<Rightarrow> (guarded_result (progress_callback m) (Progress (progress_dict T D p)),
                     m\<lparr>events := events m @ [Progress (progress_dict T D p)]\<rparr>))
      else (Inr (), m))"
  by (simp add: report_progress_def percent_field_def progress_dict_def py_bind_def py_lift_def
      py_return_def call_truthy split: sum.splits)

lemma stable_report_progress: "stable (report_progress T D)"
  by (simp add: stable_def report_progress_alt shift_def split: sum.splits)

lemma stable_file_write: "stable (file_write env fp c)"
  by (simp add: stable_def file_write_def shift_def Let_def split: option.splits)

lemma stable_http_get: "stable (http_get env url)"
  by (simp add: stable_def http_get_def shift_def)

lemma write_chunks_shift:
  "write_chunks env fp T d cs (shift pre m) =
     (fst (write_chunks env fp T d cs m), shift pre (snd (write_chunks env fp T d cs m)))"
proof (induction cs arbitrary: d m)
  case Nil
  then show ?case by simp
next
  case (Cons c cs)
  show ?case
  proof (cases "c = []")
    case True
    then show ?thesis using Cons.IH by simp
  next
    case False
    obtain r1 m1 where w: "file_write env fp c m = (r1, m1)" by (cases "file_write env fp c m")
    have w': "file_write env fp c (shift pre m) = (r1, shift pre m1)"
      using stable_shift [OF stable_file_write, of env fp c pre m] w by simp
    show ?thesis
    proof (cases r1)
      case (Inl e)
      then show ?thesis using False w w' by simp
    next
      case (Inr u)
      obtain r2 m2 where p: "report_progress T (d + int (length c)) m1 = (r2, m2)"
        by (cases "report_progress T (d + int (length c)) m1")
      have p': "report_progress T (d + int (length c)) (shift pre m1) = (r2, shift pre m2)"
        using stable_shift [OF stable_report_progress, of T _ pre m1] p by simp
      show ?thesis
        using False w w' Inr p p' Cons.IH by (cases r2) simp_all
    qed
  qed
qed

lemma write_chunks_callbacks:
  "progress_callback (snd (write_chunks env fp T d cs m)) = progress_callback m \<and>
   completion_callback (snd (write_chunks env fp T d cs m)) = completion_callback m \<and>
   error_callback (snd (write_chunks env fp T d cs m)) = error_callback m"
proof (induction cs arbitrary: d m)
  case Nil
  then show ?case by simp
next
  case (Cons c cs)
  show ?case
  proof (cases "c = []")
    case True
    then show ?thesis using Cons.IH by simp
  next
    case False
    obtain r1 m1 where w: "file_write env fp c m = (r1, m1)" by (cases "file_write env fp c m")
    have c1: "progress_callback m1 = progress_callback m" "completion_callback m1 = completion_callback m"
      "error_callback m1 = error_callback m"
      using stable_callbacks [OF stable_file_write, where m = m and env1 = env and fp1 = fp and c1 = c] w
      by simp_all
    obtain r2 m2 where p: "report_progress T (d + int (length c)) m1 = (r2, m2)"
      by (cases "report_progress T (d + int (length c)) m1")
    have c2: "progress_callback m2 = progress_callback m1" "completion_callback m2 = completion_callback m1"
      "error_callback m2 = error_callback m1"
      using stable_callbacks [OF stable_report_progress, where m = m1 and T1 = T and D1 = "d + int (length c)"] p
      by simp_all
    show ?thesis
      using False w p c1 c2 Cons.IH [of "d + int (length c)" m2]
      by (cases r1; cases r2) simp_all
  qed
qed

lemma stable_write_chunks: "stable (write_chunks env fp T d cs)"
  by (rule stableI) (simp_all add: write_chunks_shift write_chunks_callbacks)

lemma file_write_frame:
  assumes "file_write env fp c m = (r, m1)"
  shows "events m1 = events m" and "progress_callback m1 = progress_callback m"
    and "is_downloading m1 = is_downloading m" and "threads m1 = threads m"
    and "http_calls m1 = http_calls m" and "ydl_calls m1 = ydl_calls m"
    and "p \<noteq> fp \<Longrightarrow> files m1 p = files m p"
  using assms by (auto simp: file_write_def Let_def split: option.splits)

lemma file_write_files:
  assumes "file_write env fp c m = (Inr u, m1)" and "files m fp = Some old"
  shows "files m1 fp = Some (old @ c)"
  using assms by (auto simp: file_write_def Let_def split: option.splits)

lemma report_progress_frame:
  assumes "report_progress T D m = (r, m1)"
  shows "progress_callback m1 = progress_callback m"
    and "is_downloading m1 = is_downloading m" and "threads m1 = threads m"
    and "http_calls m1 = http_calls m" and "ydl_calls m1 = ydl_calls m"
    and "files m1 = files m"
  using assms by (auto simp: report_progress_alt split: if_splits sum.splits)

lemma write_chunks_silent:
  "\<not> truthy (progress_callback m) \<Longrightarrow> events (snd (write_chunks env fp T d cs m)) = events m"
proof (induction cs arbitrary: d m)
  case Nil
  then show ?case by simp
next
  case (Cons c cs)
  show ?case
  proof (cases "c = []")
    case True
    then show ?thesis using Cons by simp
  next
    case False
    obtain r1 m1 where w: "file_write env fp c m = (r1, m1)" by (cases "file_write env fp c m")
    have m1: "events m1 = events m" "\<not> truthy (progress_callback m1)"
      using file_write_frame(1,2) [OF w] Cons.prems by simp_all
    have p: "report_progress T (d + int (length c)) m1 = (Inr (), m1)"
      using m1 by (simp add: report_progress_alt)
    show ?thesis
      using False w p m1 Cons.IH [of m1 "d + int (length c)"] by (cases r1) simp_all
  qed
qed

lemma write_chunks_reports:
  "truthy (progress_callback m) \<Longrightarrow>
   \<exists>new n. events (snd (write_chunks env fp T d cs m)) = events m @ new \<and>
     map Some new = map (expected_report T) (take n (sums_from d cs))"
proof (induction cs arbitrary: d m)
  case Nil
  then show ?case by simp
next
  case (Cons c cs)
  show ?case
  proof (cases "c = []")
    case True
    then show ?thesis using Cons.IH [OF Cons.prems, of d] by simp
  next
    case False
    let ?d = "d + int (length c)"
    obtain r1 m1 where w: "file_write env fp c m = (r1, m1)" by (cases "file_write env fp c m")
    have m1: "events m1 = events m" "truthy (progress_callback m1)"
      using file_write_frame(1,2) [OF w] Cons.prems by simp_all
    show ?thesis
    proof (cases r1)
      case (Inl e)
      have "events (snd (write_chunks env fp T d (c # cs) m)) = events m @ []"
        using False w Inl m1 by simp
      moreover have "map Some [] = map (expected_report T) (take 0 (sums_from d (c # cs)))"
        by simp
      ultimately show ?thesis by blast
    next
      case (Inr u)
      show ?thesis
      proof (cases "percent_field T ?d")
        case (Inl e)
        have "report_progress T ?d m1 = (Inl e, m1)"
          using Inl m1 by (simp add: report_progress_alt)
        then have "events (snd (write_chunks env fp T d (c # cs) m)) = events m @ []"
          using False w Inr m1 by simp
        moreover have "map Some [] = map (expected_report T) (take 0 (sums_from d (c # cs)))"
          by simp
        ultimately show ?thesis by blast
      next
        case p: (Inr p)
        let ?ev = "Progress (progress_dict T ?d p)"
        let ?m2 = "m1\<lparr>events := events m1 @ [?ev]\<rparr>"
        let ?r = "guarded_result (progress_callback m1) ?ev"
        have rp: "report_progress T ?d m1 = (?r, ?m2)"
          using p m1 by (simp add: report_progress_alt)
        show ?thesis
        proof (cases ?r)
          case (Inl e)
          have "events (snd (write_chunks env fp T d (c # cs) m)) = events m @ [?ev]"
            using False w Inr rp Inl m1 by simp
          moreover have "map Some [?ev] = map (expected_report T) (take (Suc 0) (sums_from d (c # cs)))"
            using False p by (simp add: expected_report_def)
          ultimately show ?thesis by blast
        next
          case r: (Inr u')
          have "truthy (progress_callback ?m2)" using m1 by simp
          from Cons.IH [OF this, of ?d] obtain new n where
            ih: "events (snd (write_chunks env fp T ?d cs ?m2)) = events ?m2 @ new"
                "map Some new = map (expected_report T) (take n (sums_from ?d cs))"
            by blast
          have "events (snd (write_chunks env fp T d (c # cs) m)) = events m @ (?ev # new)"
            using False w Inr rp r ih(1) m1 by simp
          moreover have "map Some (?ev # new) = map (expected_report T) (take (Suc n) (sums_from d (c # cs)))"
            using False ih(2) p by (simp add: expected_report_def)
          ultimately show ?thesis by blast
        qed
      qed
    qed
  qed
qed

lemma write_chunks_frame:
  "is_downloading (snd (write_chunks env fp T d cs m)) = is_downloading m \<and>
   threads (snd (write_chunks env fp T d cs m)) = threads m \<and>
   http_calls (snd (write_chunks env fp T d cs m)) = http_calls m \<and>
   ydl_calls (snd (write_chunks env fp T d cs m)) = ydl_calls m \<and>
   (\<forall>p. p \<noteq> fp \<longrightarrow> files (snd (write_chunks env fp T d cs m)) p = files m p)"
proof (induction cs arbitrary: d m)
  case Nil
  then show ?case by simp
next
  case (Cons c cs)
  show ?case
  proof (cases "c = []")
    case True
    then show ?thesis using Cons.IH by simp
  next
    case False
    obtain r1 m1 where w: "file_write env fp c m = (r1, m1)" by (cases "file_write env fp c m")
    obtain r2 m2 where p: "report_progress T (d + int (length c)) m1 = (r2, m2)"
      by (cases "report_progress T (d + int (length c)) m1")
    show ?thesis
      using False w p file_write_frame [OF w] report_progress_frame [OF p]
        Cons.IH [of "d + int (length c)" m2]
      by (cases r1; cases r2) simp_all
  qed
qed

lemma write_chunks_files:
  "files m fp = Some old \<Longrightarrow> fst (write_chunks env fp T d cs m) = Inr () \<Longrightarrow>
   files (snd (write_chunks env fp T d cs m)) fp = Some (old @ concat cs)"
proof (induction cs arbitrary: d m old)
  case Nil
  then show ?case by simp
next
  case (Cons c cs)
  show ?case
  proof (cases "c = []")
    case True
    then show ?thesis using Cons.IH [OF Cons.prems(1), of d] Cons.prems(2) by simp
  next
    case False
    let ?d = "d + int (length c)"
    obtain r1 m1 where w: "file_write env fp c m = (r1, m1)" by (cases "file_write env fp c m")
    obtain r2 m2 where p: "report_progress T ?d m1 = (r2, m2)"
      by (cases "report_progress T ?d m1")
    have r1: "r1 = Inr ()" using Cons.prems(2) False w by (cases r1) simp_all
    have r2: "r2 = Inr ()" using Cons.prems(2) False w r1 p by (cases r2) simp_all
    have f1: "files m1 fp = Some (old @ c)"
      using file_write_files [of env fp c m "()" m1 old] w r1 Cons.prems(1) by simp
    have f2: "files m2 fp = Some (old @ c)"
      using report_progress_frame(6) [OF p] f1 by simp
    have res: "fst (write_chunks env fp T ?d cs m2) = Inr ()"
      using Cons.prems(2) False w r1 p r2 by simp
    show ?thesis
      using Cons.IH [OF f2 res] False w r1 p r2 by simp
  qed
qed



lemma sums_from_greater: "x \<in> set (sums_from d cs) \<Longrightarrow> d < x"
proof (induction cs arbitrary: d)
  case Nil
  then show ?case by simp
next
  case (Cons c cs)
  show ?case
  proof (cases "c = []")
    case True
    then show ?thesis using Cons by simp
  next
    case False
    then have "0 < int (length c)" by simp
    then show ?thesis using Cons.prems Cons.IH [of "d + int (length c)"] False by auto
  qed
qed

lemma sums_from_increasing: "sorted_wrt (<) (sums_from d cs)"
  by (induction cs arbitrary: d) (auto dest: sums_from_greater)

subsection \<open>The image adapter\<close>

lemma with_open_alt:
  "with_open env fp body m =
     (case open_error env fp of
        Some e \<Rightarrow> (Inl e, m)
      | None \<Rightarrow>
          (case close_error env fp of
             Some e \<Rightarrow> (Inl e, snd (body (m\<lparr>files := (files m)(fp \<mapsto> [])\<rparr>)))
           | None \<Rightarrow> body (m\<lparr>files := (files m)(fp \<mapsto> [])\<rparr>)))"
  by (simp add: with_open_def split: option.splits prod.splits)

lemma py_bind_alt:
  "py_bind f g m = (case fst (f m) of Inl e \<Rightarrow> (Inl e, snd (f m)) | Inr x \<Rightarrow> g x (snd (f m)))"
  by (simp add: py_bind_def split: prod.splits sum.splits)

lemma with_open_shift:
  assumes "stable body"
  shows "stable (with_open env fp body)"
proof (rule stableI)
  fix pre m
  have u: "(shift pre m)\<lparr>files := (files (shift pre m))(fp \<mapsto> [])\<rparr> = shift pre (m\<lparr>files := (files m)(fp \<mapsto> [])\<rparr>)"
    by (simp add: shift_def)
  show "with_open env fp body (shift pre m) = (fst (with_open env fp body m), shift pre (snd (with_open env fp body m)))"
    using stable_shift [OF assms, of pre "m\<lparr>files := (files m)(fp \<mapsto> [])\<rparr>"]
    by (simp add: with_open_alt u split: option.splits)
next
  fix m
  show "progress_callback (snd (with_open env fp body m)) = progress_callback m"
    using stable_callbacks(1) [OF assms, of "m\<lparr>files := (files m)(fp \<mapsto> [])\<rparr>"]
    by (simp add: with_open_alt split: option.splits)
  show "completion_callback (snd (with_open env fp body m)) = completion_callback m"
    using stable_callbacks(2) [OF assms, of "m\<lparr>files := (files m)(fp \<mapsto> [])\<rparr>"]
    by (simp add: with_open_alt split: option.splits)
  show "error_callback (snd (with_open env fp body m)) = error_callback m"
    using stable_callbacks(3) [OF assms, of "m\<lparr>files := (files m)(fp \<mapsto> [])\<rparr>"]
    by (simp add: with_open_alt split: option.splits)
qed

lemma stable_return: "stable (py_return x)"
  by (simp add: stable_def py_return_def)

lemma stable_stream_to_file: "stable (stream_to_file env fp T resp)"
  unfolding stream_to_file_def
  by (intro with_open_shift stable_bind stable_write_chunks stable_check)

lemma stream_to_file_events:
  "\<exists>new n. events (snd (stream_to_file env fp T resp m)) = events m @ new \<and>
     (\<not> truthy (progress_callback m) \<longrightarrow> new = []) \<and>
     map Some new = map (expected_report T) (take n (sums_from 0 (chunks resp)))"
proof (cases "open_error env fp")
  case (Some e)
  then have "events (snd (stream_to_file env fp T resp m)) = events m @ []"
    by (simp add: stream_to_file_def with_open_def)
  moreover have "map Some [] = map (expected_report T) (take 0 (sums_from 0 (chunks resp)))" by simp
  ultimately show ?thesis by blast
next
  case None
  let ?m1 = "m\<lparr>files := (files m)(fp \<mapsto> [])\<rparr>"
  let ?w = "write_chunks env fp T 0 (chunks resp) ?m1"
  have ev: "events (snd (stream_to_file env fp T resp m)) = events (snd ?w)"
    using None
    by (simp add: stream_to_file_def with_open_alt py_bind_alt py_check_def
        split: option.splits sum.splits)
  show ?thesis
  proof (cases "truthy (progress_callback m)")
    case False
    then have "events (snd ?w) = events m @ []"
      using write_chunks_silent [of ?m1 env fp T 0 "chunks resp"] by simp
    moreover have "map Some [] = map (expected_report T) (take 0 (sums_from 0 (chunks resp)))" by simp
    ultimately show ?thesis using ev by metis
  next
    case True
    then obtain new n where "events (snd ?w) = events ?m1 @ new"
      "map Some new = map (expected_report T) (take n (sums_from 0 (chunks resp)))"
      using write_chunks_reports [of ?m1 env fp T 0 "chunks resp"] by auto
    then show ?thesis using ev True by auto
  qed
qed

lemma stream_to_file_frame:
  "is_downloading (snd (stream_to_file env fp T resp m)) = is_downloading m \<and>
   threads (snd (stream_to_file env fp T resp m)) = threads m \<and>
   http_calls (snd (stream_to_file env fp T resp m)) = http_calls m \<and>
   ydl_calls (snd (stream_to_file env fp T resp m)) = ydl_calls m \<and>
   (\<forall>p. p \<noteq> fp \<longrightarrow> files (snd (stream_to_file env fp T resp m)) p = files m p)"
  using write_chunks_frame [of env fp T 0 "chunks resp" "m\<lparr>files := (files m)(fp \<mapsto> [])\<rparr>"]
  by (simp add: stream_to_file_def with_open_alt py_bind_alt py_check_def
      split: option.splits sum.splits)

lemma stream_to_file_files:
  assumes "fst (stream_to_file env fp T resp m) = Inr ()"
  shows "files (snd (stream_to_file env fp T resp m)) fp = Some (concat (chunks resp))"
proof -
  let ?m1 = "m\<lparr>files := (files m)(fp \<mapsto> [])\<rparr>"
  let ?w = "write_chunks env fp T 0 (chunks resp) ?m1"
  have "fst ?w = Inr () \<and> snd (stream_to_file env fp T resp m) = snd ?w"
    using assms
    by (auto simp: stream_to_file_def with_open_alt py_bind_alt py_check_def
        split: option.splits sum.splits)
  moreover have "files ?m1 fp = Some []" by simp
  ultimately show ?thesis
    using write_chunks_files [of ?m1 fp "[]" env T 0 "chunks resp"] by simp
qed

lemma image_fetch_unfold:
  "image_fetch env url dir m =
     (case requests_get env url of
        Inl e \<Rightarrow> (Inl e, m\<lparr>http_calls := http_calls m @ [url]\<rparr>)
      | Inr resp \<Rightarrow>
          (case http_error resp of
             Some e \<Rightarrow> (Inl e, m\<lparr>http_calls := http_calls m @ [url]\<rparr>)
           | None \<Rightarrow>
               (case urlparse_path env url of
                  Inl e \<Rightarrow> (Inl e, m\<lparr>http_calls := http_calls m @ [url]\<rparr>)
                | Inr path \<Rightarrow>
                    (case content_length_int env resp of
                       Inl e \<Rightarrow> (Inl e, m\<lparr>http_calls := http_calls m @ [url]\<rparr>)
                     | Inr T \<Rightarrow>
                         (case stream_to_file env (os_path_join dir (image_filename path)) T resp
                                 (m\<lparr>http_calls := http_calls m @ [url]\<rparr>) of
                            (Inl e, m2) \<Rightarrow> (Inl e, m2)
                          | (Inr u, m2) \<Rightarrow> (Inr (os_path_join dir (image_filename path)), m2))))))"
  by (simp add: image_fetch_def py_bind_def http_get_def py_check_def py_lift_def py_return_def
      split: sum.splits option.splits prod.splits)

lemma download_image_try_fetch:
  "download_image_try env url dir m =
     (case fst (image_fetch env url dir m) of
        Inl e \<Rightarrow> (Inl e, snd (image_fetch env url dir m))
      | Inr fp \<Rightarrow>
          (if truthy (completion_callback (snd (image_fetch env url dir m)))
           then call (completion_callback (snd (image_fetch env url dir m))) (Completion fp)
                  (snd (image_fetch env url dir m))
           else (Inr (), snd (image_fetch env url dir m))))"
  by (simp add: download_image_try_def image_fetch_def stream_to_file_def py_bind_def http_get_def
      py_check_def py_lift_def py_return_def Let_def split: sum.splits option.splits prod.splits)

lemma urlparse_path_Inr: "urlparse_path env url = Inr path \<Longrightarrow> path = snd (urlparse_netloc_path url)"
  by (auto simp: urlparse_path_def split: prod.splits option.splits)

lemma stable_image_fetch: "stable (image_fetch env url dir)"
  unfolding image_fetch_def
  by (intro stable_bind stable_http_get stable_check stable_lift stable_stream_to_file stable_return)

lemma stable_download_image_try: "stable (download_image_try env url dir)"
  unfolding download_image_try_def Let_def
  by (intro stable_bind stable_http_get stable_check stable_lift with_open_shift
      stable_write_chunks stable_if_completion)

lemma image_fetch_target:
  "fst (image_fetch env url dir m) = Inr fp \<Longrightarrow> fp = image_target url dir"
  by (auto simp: image_fetch_unfold image_target_def
      split: sum.splits option.splits prod.splits dest: urlparse_path_Inr)

lemma image_fetch_emitted: "image_progress_ok env url m (emitted (image_fetch env url dir) m)"
proof -
  let ?m0 = "m\<lparr>events := []\<rparr>"
  let ?m1 = "?m0\<lparr>http_calls := http_calls ?m0 @ [url]\<rparr>"
  let ?f = "image_fetch env url dir"
  have em: "emitted ?f m = events (snd (?f ?m0))" by (simp add: emitted_def)
  show ?thesis
  proof (cases "\<exists>resp path T. requests_get env url = Inr resp \<and> http_error resp = None \<and>
      urlparse_path env url = Inr path \<and> content_length_int env resp = Inr T")
    case False
    then have "events (snd (?f ?m0)) = []"
      by (auto simp: image_fetch_unfold split: sum.splits option.splits)
    then show ?thesis
      unfolding em by (auto simp: image_progress_ok_def split: sum.splits)
  next
    case True
    then obtain resp path T where h: "requests_get env url = Inr resp" "http_error resp = None"
      "urlparse_path env url = Inr path" "content_length_int env resp = Inr T"
      by blast
    let ?s = "stream_to_file env (os_path_join dir (image_filename path)) T resp ?m1"
    obtain new n where new: "events (snd ?s) = events ?m1 @ new"
      "\<not> truthy (progress_callback ?m1) \<longrightarrow> new = []"
      "map Some new = map (expected_report T) (take n (sums_from 0 (chunks resp)))"
      using stream_to_file_events [of env "os_path_join dir (image_filename path)" T resp ?m1] by blast
    have "events (snd (?f ?m0)) = events (snd ?s)"
      using h by (simp add: image_fetch_unfold split: prod.splits sum.splits)
    then have "events (snd (?f ?m0)) = new" using new(1) by simp
    then show ?thesis
      unfolding em using h new(2,3) by (auto simp: image_progress_ok_def)
  qed
qed

lemma image_fetch_frame:
  "is_downloading (snd (image_fetch env url dir m)) = is_downloading m \<and>
   threads (snd (image_fetch env url dir m)) = threads m \<and>
   http_calls (snd (image_fetch env url dir m)) = http_calls m @ [url] \<and>
   ydl_calls (snd (image_fetch env url dir m)) = ydl_calls m \<and>
   (\<forall>p. p \<noteq> image_target url dir \<longrightarrow> files (snd (image_fetch env url dir m)) p = files m p)"
proof (cases "\<exists>resp path T. requests_get env url = Inr resp \<and> http_error resp = None \<and>
    urlparse_path env url = Inr path \<and> content_length_int env resp = Inr T")
  case False
  then show ?thesis
    by (auto simp: image_fetch_unfold split: sum.splits option.splits)
next
  case True
  then obtain resp path T where h: "requests_get env url = Inr resp" "http_error resp = None"
    "urlparse_path env url = Inr path" "content_length_int env resp = Inr T"
    by blast
  have tgt: "os_path_join dir (image_filename path) = image_target url dir"
    using urlparse_path_Inr [OF h(3)] by (simp add: image_target_def)
  let ?m1 = "m\<lparr>http_calls := http_calls m @ [url]\<rparr>"
  let ?s = "stream_to_file env (image_target url dir) T resp ?m1"
  obtain rs ms where s: "?s = (rs, ms)" by (cases ?s)
  have fr: "is_downloading ms = is_downloading m" "threads ms = threads m"
    "http_calls ms = http_calls m @ [url]" "ydl_calls ms = ydl_calls m"
    "\<forall>p. p \<noteq> image_target url dir \<longrightarrow> files ms p = files m p"
    using stream_to_file_frame [of env "image_target url dir" T resp ?m1] s by simp_all
  show ?thesis
    using h tgt s fr by (cases rs) (simp_all add: image_fetch_unfold)
qed

lemma image_fetch_files:
  assumes "requests_get env url = Inr resp" and "fst (image_fetch env url dir m) = Inr fp"
  shows "files (snd (image_fetch env url dir m)) (image_target url dir) = Some (concat (chunks resp))"
proof -
  let ?m1 = "m\<lparr>http_calls := http_calls m @ [url]\<rparr>"
  from assms obtain path T where h: "http_error resp = None"
    "urlparse_path env url = Inr path" "content_length_int env resp = Inr T"
    by (auto simp: image_fetch_unfold split: sum.splits option.splits)
  have tgt: "os_path_join dir (image_filename path) = image_target url dir"
    using urlparse_path_Inr [OF h(2)] by (simp add: image_target_def)
  let ?s = "stream_to_file env (image_target url dir) T resp ?m1"
  obtain rs ms where s: "?s = (rs, ms)" by (cases ?s)
  have rs: "rs = Inr ()" and ms: "snd (image_fetch env url dir m) = ms"
    using assms h tgt s by (cases rs; simp add: image_fetch_unfold)+
  have "files (snd ?s) (image_target url dir) = Some (concat (chunks resp))"
    using stream_to_file_files [of env "image_target url dir" T resp ?m1] s rs by simp
  then show ?thesis using s ms by simp
qed

lemma image_fetch_failures:
  "requests_get env url = Inl e \<Longrightarrow> fst (image_fetch env url dir m) = Inl e"
  "requests_get env url = Inr resp \<Longrightarrow> http_error resp = Some e \<Longrightarrow>
     fst (image_fetch env url dir m) = Inl e"
  "requests_get env url = Inr resp \<Longrightarrow> http_error resp = None \<Longrightarrow>
     urlparse_path env url = Inr path \<Longrightarrow> content_length_int env resp = Inr T \<Longrightarrow>
     open_error env (os_path_join dir (image_filename path)) = Some e \<Longrightarrow>
     fst (image_fetch env url dir m) = Inl e"
  by (simp_all add: image_fetch_unfold stream_to_file_def with_open_alt)

lemma download_image_try_alt:
  "download_image_try env url dir m =
     (case fst (image_fetch env url dir m) of
        Inl e \<Rightarrow> (Inl e, snd (image_fetch env url dir m))
      | Inr fp \<Rightarrow>
          (guarded_result (completion_callback m) (Completion fp),
           (snd (image_fetch env url dir m))
             \<lparr>events := events (snd (image_fetch env url dir m)) @
                         delivered (completion_callback m) (Completion fp)\<rparr>))"
proof -
  have c: "completion_callback (snd (image_fetch env url dir m)) = completion_callback m"
    by (rule stable_callbacks(2) [OF stable_image_fetch])
  have g: "(if truthy f then call f ev m' else (Inr (), m')) =
      (guarded_result f ev, m'\<lparr>events := events m' @ delivered f ev\<rparr>)" for f ev m'
    by (cases f) (simp_all add: call_def guarded_result_def delivered_def split: option.splits)
  show ?thesis
    unfolding download_image_try_fetch g c by simp
qed

lemma download_image_try_result:
  "fst (download_image_try env url dir m) =
     (case fst (image_fetch env url dir m) of
        Inl e \<Rightarrow> Inl e
      | Inr fp \<Rightarrow> guarded_result (completion_callback m) (Completion fp))"
  by (simp add: download_image_try_alt split: sum.splits)

lemma download_image_except_alt:
  "download_image_except env url dir m =
     (case fst (download_image_try env url dir m) of
        Inr u \<Rightarrow> (Inr (), snd (download_image_try env url dir m))
      | Inl e \<Rightarrow>
          (guarded_result (error_callback m) (Error (image_error_message url e)),
           (snd (download_image_try env url dir m))
             \<lparr>events := events (snd (download_image_try env url dir m)) @
                         delivered (error_callback m) (Error (image_error_message url e))\<rparr>))"
proof -
  have c: "error_callback (snd (download_image_try env url dir m)) = error_callback m"
    by (rule stable_callbacks(3) [OF stable_download_image_try])
  obtain r m1 where t: "download_image_try env url dir m = (r, m1)"
    by (cases "download_image_try env url dir m")
  show ?thesis
    using c t guarded_call [of "error_callback m1" _ m1]
    by (cases r) (simp_all add: download_image_except_def)
qed

lemma download_image_finally:
  "download_image env url dir m =
     (fst (download_image_except env url dir m),
      (snd (download_image_except env url dir m))\<lparr>is_downloading := False\<rparr>)"
  by (simp add: download_image_def download_image_except_def image_error_message_def
      split: prod.splits sum.splits exn.splits)

lemma download_image_try_frame:
  "is_downloading (snd (download_image_try env url dir m)) = is_downloading m \<and>
   threads (snd (download_image_try env url dir m)) = threads m \<and>
   http_calls (snd (download_image_try env url dir m)) = http_calls m @ [url] \<and>
   ydl_calls (snd (download_image_try env url dir m)) = ydl_calls m \<and>
   files (snd (download_image_try env url dir m)) = files (snd (image_fetch env url dir m))"
  using image_fetch_frame [of env url dir m]
  by (simp add: download_image_try_alt split: sum.splits)

lemma download_image_except_frame:
  "is_downloading (snd (download_image_except env url dir m)) = is_downloading m \<and>
   threads (snd (download_image_except env url dir m)) = threads m \<and>
   http_calls (snd (download_image_except env url dir m)) = http_calls m @ [url] \<and>
   ydl_calls (snd (download_image_except env url dir m)) = ydl_calls m \<and>
   files (snd (download_image_except env url dir m)) = files (snd (image_fetch env url dir m))"
  using download_image_try_frame [of env url dir m]
  by (simp add: download_image_except_alt split: sum.splits)

lemma download_image_except_result:
  "fst (download_image_except env url dir m) = image_result env url dir m"
  by (simp add: download_image_except_alt download_image_try_result image_result_def
      split: sum.splits)

lemma download_image_except_events:
  "events (snd (download_image_except env url dir m)) =
     events (snd (image_fetch env url dir m)) @ image_outcome env url dir m"
  by (simp add: download_image_except_alt download_image_try_alt image_outcome_def
      split: sum.splits)

lemma stable_download_image_except: "stable (download_image_except env url dir)"
proof (rule stableI)
  fix pre m
  let ?tb = "download_image_try env url dir"
  have t: "?tb (shift pre m) = (fst (?tb m), shift pre (snd (?tb m)))"
    by (rule stable_shift [OF stable_download_image_try])
  show "download_image_except env url dir (shift pre m) =
        (fst (download_image_except env url dir m), shift pre (snd (download_image_except env url dir m)))"
    unfolding download_image_except_alt t fst_conv snd_conv shift_simps
    by (simp add: shift_def split: sum.splits)
next
  fix m
  note c = stable_callbacks [OF stable_download_image_try, of env url dir m]
  show "progress_callback (snd (download_image_except env url dir m)) = progress_callback m"
    using c by (simp add: download_image_except_alt split: sum.splits)
  show "completion_callback (snd (download_image_except env url dir m)) = completion_callback m"
    using c by (simp add: download_image_except_alt split: sum.splits)
  show "error_callback (snd (download_image_except env url dir m)) = error_callback m"
    using c by (simp add: download_image_except_alt split: sum.splits)
qed

lemma stable_download_image: "stable (download_image env url dir)"
proof (rule stableI)
  fix pre m
  show "download_image env url dir (shift pre m) =
        (fst (download_image env url dir m), shift pre (snd (download_image env url dir m)))"
    unfolding download_image_finally stable_shift [OF stable_download_image_except] fst_conv snd_conv
    by (simp add: shift_def)
next
  fix m
  note c = stable_callbacks [OF stable_download_image_except, of env url dir m]
  show "progress_callback (snd (download_image env url dir m)) = progress_callback m"
    using c by (simp add: download_image_finally)
  show "completion_callback (snd (download_image env url dir m)) = completion_callback m"
    using c by (simp add: download_image_finally)
  show "error_callback (snd (download_image env url dir m)) = error_callback m"
    using c by (simp add: download_image_finally)
qed

lemma download_image_result: "fst (download_image env url dir m) = image_result env url dir m"
  by (simp add: download_image_finally download_image_except_result)

lemma download_image_releases: "is_downloading (snd (download_image env url dir m)) = False"
  by (simp add: download_image_finally)

lemma image_outcome_log: "image_outcome env url dir (m\<lparr>events := evs\<rparr>) = image_outcome env url dir m"
  by (simp add: image_outcome_def result_independent [OF stable_image_fetch]
      cong: sum.case_cong)

lemma download_image_emitted:
  "emitted (download_image env url dir) m =
     emitted (image_fetch env url dir) m @ image_outcome env url dir m"
  by (simp add: emitted_def download_image_finally download_image_except_events image_outcome_log)

lemma download_image_frame:
  "threads (snd (download_image env url dir m)) = threads m \<and>
   http_calls (snd (download_image env url dir m)) = http_calls m @ [url] \<and>
   ydl_calls (snd (download_image env url dir m)) = ydl_calls m \<and>
   files (snd (download_image env url dir m)) = files (snd (image_fetch env url dir m)) \<and>
   (\<forall>p. p \<noteq> image_target url dir \<longrightarrow> files (snd (download_image env url dir m)) p = files m p)"
  using download_image_except_frame [of env url dir m] image_fetch_frame [of env url dir m]
  by (simp add: download_image_finally)

subsection \<open>The extraction adapter and the worker\<close>

lemma yt_dlp_hook_alt:
  "yt_dlp_hook d m =
     (guarded_result (progress_callback m) (Progress d),
      m\<lparr>events := events m @ delivered (progress_callback m) (Progress d)\<rparr>)"
  by (simp add: yt_dlp_hook_def guarded_call)

lemma hook_outcome_alt:
  "hook_outcome m d =
     (case guarded_result (progress_callback m) (Progress d) of Inl e \<Rightarrow> Some e | Inr u \<Rightarrow> None)"
  by (simp add: hook_outcome_def yt_dlp_hook_alt)

lemma hook_outcome_cong:
  assumes "progress_callback m' = progress_callback m"
  shows "hook_outcome m' = hook_outcome m"
proof
  fix d
  show "hook_outcome m' d = hook_outcome m d"
    unfolding hook_outcome_alt assms ..
qed

lemma video_run_cong:
  "progress_callback m' = progress_callback m \<Longrightarrow> video_run env url dir ty m' = video_run env url dir ty m"
  using hook_outcome_cong [of m' m] by (simp add: video_run_def)

lemma run_hooks_alt:
  "run_hooks ds m =
     (Inr (), m\<lparr>events := events m @ (if truthy (progress_callback m) then map Progress ds else [])\<rparr>)"
proof (induction ds arbitrary: m)
  case Nil
  then show ?case by simp
next
  case (Cons d ds)
  show ?case
    by (cases "truthy (progress_callback m)") (simp_all add: yt_dlp_hook_alt Cons.IH)
qed

lemma youtube_dl_download_alt:
  "youtube_dl_download env (ydl_opts dir ty) [url] m =
     ((case raised (video_run env url dir ty m) of None \<Rightarrow> Inr () | Some e \<Rightarrow> Inl e),
      m\<lparr>events := events m @
           (if truthy (progress_callback m)
            then map Progress (hook_calls (video_run env url dir ty m)) else []),
         ydl_calls := ydl_calls m @ [(ydl_opts dir ty, [url])]\<rparr>)"
proof -
  let ?m1 = "m\<lparr>ydl_calls := ydl_calls m @ [(ydl_opts dir ty, [url])]\<rparr>"
  have "progress_callback ?m1 = progress_callback m" by simp
  then show ?thesis
    by (simp add: youtube_dl_download_def video_run_def run_hooks_alt py_bind_def py_check_def Let_def
        split: option.splits)
qed

lemma download_video_audio_try_alt:
  "download_video_audio_try env url dir ty m =
     (case raised (video_run env url dir ty m) of
        Some e \<Rightarrow>
          (Inl e, m\<lparr>events := events m @
                      (if truthy (progress_callback m)
                       then map Progress (hook_calls (video_run env url dir ty m)) else []),
                    ydl_calls := ydl_calls m @ [(ydl_opts dir ty, [url])]\<rparr>)
      | None \<Rightarrow>
          (guarded_result (completion_callback m) (Completion (video_message url dir)),
           m\<lparr>events := events m @
                (if truthy (progress_callback m)
                 then map Progress (hook_calls (video_run env url dir ty m)) else []) @
                delivered (completion_callback m) (Completion (video_message url dir)),
             ydl_calls := ydl_calls m @ [(ydl_opts dir ty, [url])]\<rparr>))"
proof -
  have g: "(if truthy f then call f ev m' else py_return () m') =
      (guarded_result f ev, m'\<lparr>events := events m' @ delivered f ev\<rparr>)" for f ev m'
    by (rule guarded_call)
  show ?thesis
    unfolding download_video_audio_try_def py_bind_def youtube_dl_download_alt g
    by (simp add: video_message_def split: option.splits)
qed

lemma download_video_audio_try_result:
  "fst (download_video_audio_try env url dir ty m) =
     (case raised (video_run env url dir ty m) of
        Some e \<Rightarrow> Inl e
      | None \<Rightarrow> guarded_result (completion_callback m) (Completion (video_message url dir)))"
  by (simp add: download_video_audio_try_alt split: option.splits)

lemma download_video_audio_except_alt:
  "download_video_audio_except env url dir ty m =
     (video_result env url dir ty m,
      m\<lparr>events := events m @ video_events env url dir ty m,
        ydl_calls := ydl_calls m @ [(ydl_opts dir ty, [url])]\<rparr>)"
proof -
  have g: "(if truthy f then call f ev m' else py_return () m') =
      (guarded_result f ev, m'\<lparr>events := events m' @ delivered f ev\<rparr>)" for f ev m'
    by (rule guarded_call)
  show ?thesis
    unfolding download_video_audio_except_def download_video_audio_try_alt
    by (cases "raised (video_run env url dir ty m)";
        cases "guarded_result (completion_callback m) (Completion (video_message url dir))")
      (simp_all add: g video_result_def video_events_def video_outcome_def)
qed

lemma download_video_audio_finally:
  "download_video_audio env url dir ty m =
     (fst (download_video_audio_except env url dir ty m),
      (snd (download_video_audio_except env url dir ty m))\<lparr>is_downloading := False\<rparr>)"
  by (simp add: download_video_audio_def download_video_audio_except_def video_error_message_def
      split: prod.splits sum.splits)

lemma download_video_audio_alt:
  "download_video_audio env url dir ty m =
     (video_result env url dir ty m,
      m\<lparr>is_downloading := False,
        events := events m @ video_events env url dir ty m,
        ydl_calls := ydl_calls m @ [(ydl_opts dir ty, [url])]\<rparr>)"
  by (simp add: download_video_audio_finally download_video_audio_except_alt)

lemma video_cong:
  assumes "progress_callback m' = progress_callback m"
    and "completion_callback m' = completion_callback m"
    and "error_callback m' = error_callback m"
  shows "video_events env url dir ty m' = video_events env url dir ty m"
    and "video_result env url dir ty m' = video_result env url dir ty m"
    and "video_outcome env url dir ty m' = video_outcome env url dir ty m"
  using assms video_run_cong [OF assms(1), of env url dir ty]
  by (simp_all add: video_events_def video_result_def video_outcome_def
      cong: sum.case_cong option.case_cong)

lemma video_log:
  "video_events env url dir ty (m\<lparr>events := evs\<rparr>) = video_events env url dir ty m"
  "video_result env url dir ty (m\<lparr>events := evs\<rparr>) = video_result env url dir ty m"
  "video_outcome env url dir ty (m\<lparr>events := evs\<rparr>) = video_outcome env url dir ty m"
  using video_cong [of "m\<lparr>events := evs\<rparr>" m env url dir ty] by simp_all

lemma stable_download_video_audio_except: "stable (download_video_audio_except env url dir ty)"
  by (rule stableI)
    (simp_all add: download_video_audio_except_alt shift_def video_log)

lemma stable_download_video_audio: "stable (download_video_audio env url dir ty)"
  by (rule stableI)
    (simp_all add: download_video_audio_alt shift_def video_log)

lemma download_video_audio_emitted:
  "emitted (download_video_audio env url dir ty) m = video_events env url dir ty m"
  by (simp add: emitted_def download_video_audio_alt video_log)

lemma run_download_task_invalid:
  "download_type \<noteq> ''video'' \<Longrightarrow> download_type \<noteq> ''audio'' \<Longrightarrow> download_type \<noteq> ''image'' \<Longrightarrow>
   run_download_task env url download_type dir m =
     (case guarded_result (error_callback m) (Error (''Invalid download type: '' @ download_type)) of
        Inl e \<Rightarrow> (Inl e, m\<lparr>events := events m @ invalid_type_events download_type m\<rparr>)
      | Inr u \<Rightarrow>
          (Inr (), m\<lparr>events := events m @ invalid_type_events download_type m,
                     is_downloading := False\<rparr>))"
  by (simp add: run_download_task_def py_bind_def guarded_call invalid_type_events_def
      split: sum.splits)

lemma run_download_task_image:
  "run_download_task env url ''image'' dir m = download_image env url dir m"
  by (simp add: run_download_task_def)

lemma run_download_task_video_audio:
  "download_type = ''video'' \<or> download_type = ''audio'' \<Longrightarrow>
   run_download_task env url download_type dir m = download_video_audio env url dir download_type m"
  by (auto simp: run_download_task_def)

lemma stable_run_download_task: "stable (run_download_task env url ty dir)"
proof -
  consider "ty = ''video'' \<or> ty = ''audio''" | "ty = ''image''"
    | "ty \<noteq> ''video''" "ty \<noteq> ''audio''" "ty \<noteq> ''image''" by blast
  then show ?thesis
  proof cases
    case 1
    then have "run_download_task env url ty dir = download_video_audio env url dir ty"
      by (auto simp: run_download_task_def fun_eq_iff)
    then show ?thesis by (simp add: stable_download_video_audio)
  next
    case 2
    then have "run_download_task env url ty dir = download_image env url dir"
      by (auto simp: run_download_task_def fun_eq_iff)
    then show ?thesis by (simp add: stable_download_image)
  next
    case 3
    then show ?thesis
      by (intro stableI)
        (simp_all add: run_download_task_invalid shift_def invalid_type_events_def split: sum.splits)
  qed
qed

lemma run_download_task_releases:
  "ty = ''video'' \<or> ty = ''audio'' \<or> ty = ''image'' \<Longrightarrow>
   is_downloading (snd (run_download_task env url ty dir m)) = False"
  by (auto simp: run_download_task_video_audio run_download_task_image
      download_video_audio_alt download_image_releases)

lemma stable_thread_run: "stable (thread_run env)"
proof (rule stableI)
  fix pre m
  show "thread_run env (shift pre m) = (fst (thread_run env m), shift pre (snd (thread_run env m)))"
  proof (cases "threads m")
    case Nil
    then show ?thesis by (simp add: thread_run_def shift_def)
  next
    case (Cons t ts)
    obtain url ty dir where t: "t = (url, ty, dir)" by (cases t)
    have u: "(shift pre m)\<lparr>threads := ts\<rparr> = shift pre (m\<lparr>threads := ts\<rparr>)" by (simp add: shift_def)
    show ?thesis
      using Cons t stable_shift [OF stable_run_download_task, of env url ty dir pre "m\<lparr>threads := ts\<rparr>"]
      by (simp add: thread_run_def shift_simps u)
  qed
next
  fix m
  show "progress_callback (snd (thread_run env m)) = progress_callback m"
    using stable_callbacks(1) [OF stable_run_download_task]
    by (simp add: thread_run_def split: list.splits prod.splits)
  show "completion_callback (snd (thread_run env m)) = completion_callback m"
    using stable_callbacks(2) [OF stable_run_download_task]
    by (simp add: thread_run_def split: list.splits prod.splits)
  show "error_callback (snd (thread_run env m)) = error_callback m"
    using stable_callbacks(3) [OF stable_run_download_task]
    by (simp add: thread_run_def split: list.splits prod.splits)
qed

subsection \<open>Events of a worker\<close>

lemma expected_reports_progress:
  "map Some prog = map (expected_report T) xs \<Longrightarrow> \<forall>e \<in> set prog. is_progress e"
proof (induction prog arbitrary: xs)
  case Nil
  then show ?case by simp
next
  case (Cons e prog)
  then obtain x xs' where xs: "xs = x # xs'" by (cases xs) auto
  with Cons.prems have "Some e = expected_report T x" "map Some prog = map (expected_report T) xs'"
    by simp_all
  then show ?case using Cons.IH [of xs']
    by (auto simp: expected_report_def split: sum.splits)
qed

lemma expected_reports_bytes:
  "map Some prog = map (expected_report T) xs \<Longrightarrow> progress_bytes prog = xs"
proof (induction prog arbitrary: xs)
  case Nil
  then show ?case by (simp add: progress_bytes_def map_filter_simps)
next
  case (Cons e prog)
  then obtain x xs' where xs: "xs = x # xs'" by (cases xs) auto
  with Cons.prems have e: "Some e = expected_report T x" and r: "map Some prog = map (expected_report T) xs'"
    by simp_all
  have "downloaded_bytes e = Some x"
    using e by (auto simp: expected_report_def progress_dict_def split: sum.splits)
  then show ?case using Cons.IH [OF r] xs
    by (simp add: progress_bytes_def map_filter_simps)
qed

lemma image_progress_ok_progress:
  "image_progress_ok env url m prog \<Longrightarrow> \<forall>e \<in> set prog. is_progress e"
  by (auto simp: image_progress_ok_def split: sum.splits dest: expected_reports_progress)

lemma image_outcome_facts:
  "length (image_outcome env url dir m) \<le> 2"
  "\<forall>e \<in> set (image_outcome env url dir m). is_outcome e"
  "\<forall>ev. guarded_result (completion_callback m) ev = Inr () \<Longrightarrow>
     length (image_outcome env url dir m) \<le> 1"
  "\<forall>ev. guarded_result (completion_callback m) ev = Inr () \<Longrightarrow>
     truthy (completion_callback m) \<Longrightarrow> truthy (error_callback m) \<Longrightarrow>
     length (image_outcome env url dir m) = 1"
  "\<not> truthy (completion_callback m) \<Longrightarrow> Completion p \<notin> set (image_outcome env url dir m)"
  "\<not> truthy (error_callback m) \<Longrightarrow> Error s \<notin> set (image_outcome env url dir m)"
  by (auto simp: image_outcome_def delivered_def split: sum.splits)

lemma video_outcome_facts:
  "length (video_outcome env url dir ty m) \<le> 2"
  "\<forall>e \<in> set (video_outcome env url dir ty m). is_outcome e"
  "\<forall>ev. guarded_result (completion_callback m) ev = Inr () \<Longrightarrow>
     length (video_outcome env url dir ty m) \<le> 1"
  "\<forall>ev. guarded_result (completion_callback m) ev = Inr () \<Longrightarrow>
     truthy (completion_callback m) \<Longrightarrow> truthy (error_callback m) \<Longrightarrow>
     length (video_outcome env url dir ty m) = 1"
  "\<not> truthy (completion_callback m) \<Longrightarrow> Completion p \<notin> set (video_outcome env url dir ty m)"
  "\<not> truthy (error_callback m) \<Longrightarrow> Error s \<notin> set (video_outcome env url dir ty m)"
  by (auto simp: video_outcome_def delivered_def split: option.splits sum.splits)

lemma invalid_type_facts:
  "length (invalid_type_events ty m) \<le> 1"
  "\<forall>e \<in> set (invalid_type_events ty m). is_outcome e"
  "truthy (error_callback m) \<Longrightarrow> length (invalid_type_events ty m) = 1"
  "Completion p \<notin> set (invalid_type_events ty m)"
  "\<not> truthy (error_callback m) \<Longrightarrow> Error s \<notin> set (invalid_type_events ty m)"
  by (auto simp: invalid_type_events_def delivered_def)

lemma task_outcome_facts:
  "length (task_outcome env url ty dir m) \<le> 2"
  "\<forall>e \<in> set (task_outcome env url ty dir m). is_outcome e"
  "\<forall>ev. guarded_result (completion_callback m) ev = Inr () \<Longrightarrow>
     length (task_outcome env url ty dir m) \<le> 1"
  "\<forall>ev. guarded_result (completion_callback m) ev = Inr () \<Longrightarrow>
     truthy (completion_callback m) \<Longrightarrow> truthy (error_callback m) \<Longrightarrow>
     length (task_outcome env url ty dir m) = 1"
  "\<not> truthy (completion_callback m) \<Longrightarrow> Completion p \<notin> set (task_outcome env url ty dir m)"
  "\<not> truthy (error_callback m) \<Longrightarrow> Error s \<notin> set (task_outcome env url ty dir m)"
proof -
  have i: "length (invalid_type_events ty m) \<le> 2"
    using invalid_type_facts(1) [of ty m] by simp
  show "length (task_outcome env url ty dir m) \<le> 2"
    using i by (simp add: task_outcome_def image_outcome_facts(1) video_outcome_facts(1))
  show "\<forall>e \<in> set (task_outcome env url ty dir m). is_outcome e"
    by (simp add: task_outcome_def image_outcome_facts(2) video_outcome_facts(2) invalid_type_facts(2))
  show "length (task_outcome env url ty dir m) \<le> 1"
    if "\<forall>ev. guarded_result (completion_callback m) ev = Inr ()"
    using that
    by (simp add: task_outcome_def image_outcome_facts(3) video_outcome_facts(3) invalid_type_facts(1)
        del: One_nat_def)
  show "length (task_outcome env url ty dir m) = 1"
    if "\<forall>ev. guarded_result (completion_callback m) ev = Inr ()"
      "truthy (completion_callback m)" "truthy (error_callback m)"
    using that
    by (simp add: task_outcome_def image_outcome_facts(4) video_outcome_facts(4) invalid_type_facts(3)
        del: One_nat_def)
  show "Completion p \<notin> set (task_outcome env url ty dir m)" if "\<not> truthy (completion_callback m)"
    using that
    by (simp add: task_outcome_def image_outcome_facts(5) video_outcome_facts(5) invalid_type_facts(4))
  show "Error s \<notin> set (task_outcome env url ty dir m)" if "\<not> truthy (error_callback m)"
    using that
    by (simp add: task_outcome_def image_outcome_facts(6) video_outcome_facts(6) invalid_type_facts(5))
qed

lemma run_download_task_emitted:
  "\<exists>ps. emitted (run_download_task env url ty dir) m = ps @ task_outcome env url ty dir m \<and>
     (\<forall>e \<in> set ps. is_progress e) \<and> (\<not> truthy (progress_callback m) \<longrightarrow> ps = [])"
proof -
  consider "ty = ''video'' \<or> ty = ''audio''" | "ty = ''image''"
    | "ty \<noteq> ''video''" "ty \<noteq> ''audio''" "ty \<noteq> ''image''" by blast
  then show ?thesis
  proof cases
    case 1
    then have "run_download_task env url ty dir = download_video_audio env url dir ty"
      by (auto simp: run_download_task_def fun_eq_iff)
    then have "emitted (run_download_task env url ty dir) m =
        (if truthy (progress_callback m)
         then map Progress (hook_calls (video_run env url dir ty m)) else []) @
        task_outcome env url ty dir m"
      using 1 by (simp add: download_video_audio_emitted video_events_def task_outcome_def)
    moreover have "\<forall>e \<in> set (if truthy (progress_callback m)
         then map Progress (hook_calls (video_run env url dir ty m)) else []). is_progress e"
      by auto
    ultimately show ?thesis by metis
  next
    case 2
    then have eq: "run_download_task env url ty dir = download_image env url dir"
      by (auto simp: run_download_task_def fun_eq_iff)
    have ok: "image_progress_ok env url m (emitted (image_fetch env url dir) m)"
      by (rule image_fetch_emitted)
    have "emitted (run_download_task env url ty dir) m =
        emitted (image_fetch env url dir) m @ task_outcome env url ty dir m"
      using 2 eq by (simp add: download_image_emitted task_outcome_def)
    then show ?thesis
      using image_progress_ok_progress [OF ok] ok by (auto simp: image_progress_ok_def)
  next
    case 3
    then have "emitted (run_download_task env url ty dir) m = [] @ task_outcome env url ty dir m"
      by (simp add: emitted_def run_download_task_invalid task_outcome_def invalid_type_events_def
          split: sum.splits)
    then show ?thesis by (metis empty_iff list.set(1))
  qed
qed

lemma run_download_task_result:
  "fst (run_download_task env url ty dir m) = task_result env url ty dir m"
proof -
  consider "ty = ''video'' \<or> ty = ''audio''" | "ty = ''image''"
    | "ty \<noteq> ''video''" "ty \<noteq> ''audio''" "ty \<noteq> ''image''" by blast
  then show ?thesis
  proof cases
    case 1
    then show ?thesis
      by (auto simp: run_download_task_video_audio download_video_audio_alt task_result_def)
  next
    case 2
    then show ?thesis
      by (simp add: run_download_task_image download_image_result task_result_def)
  next
    case 3
    then show ?thesis
      by (simp add: run_download_task_invalid task_result_def split: sum.splits)
  qed
qed

lemma task_result_returns:
  assumes "\<forall>ev. guarded_result (error_callback m) ev = Inr ()"
  shows "task_result env url ty dir m = Inr ()"
  using assms
  by (simp add: task_result_def image_result_def video_result_def split: sum.splits option.splits)

subsection \<open>Single flight and validation\<close>

lemma handler_simps:
  "truthy returning_handler" "truthy failing_handler"
  "guarded_result returning_handler ev = Inr ()"
  "guarded_result failing_handler ev = Inl (Exception ''handler failed'')"
  "delivered returning_handler ev = [ev]" "delivered failing_handler ev = [ev]"
  by (simp_all add: returning_handler_def failing_handler_def guarded_result_def delivered_def)

lemma listening_manager_simps:
  "progress_callback listening_manager = returning_handler"
  "completion_callback listening_manager = returning_handler"
  "error_callback listening_manager = returning_handler"
  "is_downloading listening_manager = False"
  "events listening_manager = []"
  "threads listening_manager = []"
  "http_calls listening_manager = []"
  "ydl_calls listening_manager = []"
  "files listening_manager = Map.empty"
  by (simp_all add: listening_manager_def DownloadManager_def default_arg_def)

lemma silent_manager_simps:
  "progress_callback silent_manager = PyNone"
  "completion_callback silent_manager = PyNone"
  "error_callback silent_manager = PyNone"
  "is_downloading silent_manager = False"
  "events silent_manager = []"
  "threads silent_manager = []"
  "http_calls silent_manager = []"
  "ydl_calls silent_manager = []"
  "files silent_manager = Map.empty"
  by (simp_all add: silent_manager_def DownloadManager_def default_arg_def)

lemma busy_manager_eq:
  "busy_manager = listening_manager\<lparr>is_downloading := True,
      threads := [(''https://example.com/x.jpg'', ''image'', ''/tmp/out'')]\<rparr>"
  by (simp add: busy_manager_def download_content_def listening_manager_simps scenario_env_def)

lemma download_content_alt:
  "download_content env url ty dir m =
     (if is_downloading m then
        (guarded_result (error_callback m) (Error busy_message),
         m\<lparr>events := events m @ delivered (error_callback m) (Error busy_message)\<rparr>)
      else if \<not> isdir env dir then
        (guarded_result (error_callback m) (Error (''Output directory does not exist: '' @ dir)),
         m\<lparr>events := events m @
              delivered (error_callback m) (Error (''Output directory does not exist: '' @ dir))\<rparr>)
      else (Inr (), m\<lparr>is_downloading := True, threads := threads m @ [(url, ty, dir)]\<rparr>))"
  by (simp add: download_content_def guarded_call busy_message_def)

text \<open>
  Claim C1 as stated fails: a submission made while a download is in progress does
  produce an event. After an accepted submission the manager is busy and nothing has
  been delivered; a second submission then ends in a call of the error callback.
\<close>

theorem rejected_submission_reports_error:
  "is_downloading busy_manager \<and> events busy_manager = [] \<and>
   events (snd (download_content scenario_env ''https://example.com/y.jpg'' ''image'' ''/tmp/out''
                  busy_manager)) = [Error busy_message]"
  by (simp add: busy_manager_eq download_content_alt listening_manager_simps handler_simps)

text \<open>
  Claim C1, amended. A call of \<^verbatim>\<open>download_content\<close> made while \<^verbatim>\<open>is_downloading\<close> is
  true changes nothing but the log of events: no worker thread is started, the flag
  stays set, and no progress or completion event is delivered. The rejection is reported
  through the error callback, called once with the fixed message when it is registered;
  the call of \<^verbatim>\<open>download_content\<close> returns when the callback returns, and raises what the
  callback raises. The request in flight is not affected: run after the rejected call,
  its worker ends with the same result, delivers the same events and leaves the same
  state as it would have without the call, the log apart.
\<close>

theorem busy_submission_rejected:
  assumes "is_downloading m"
  shows "download_content env url ty dir m =
           (guarded_result (error_callback m) (Error busy_message),
            m\<lparr>events := events m @
                 (if truthy (error_callback m) then [Error busy_message] else [])\<rparr>) \<and>
         thread_run env' (snd (download_content env url ty dir m)) =
           (fst (thread_run env' m),
            (snd (thread_run env' m))
              \<lparr>events := events (snd (download_content env url ty dir m)) @ emitted (thread_run env') m\<rparr>) \<and>
         events (snd (thread_run env' m)) = events m @ emitted (thread_run env') m"
proof -
  let ?evs = "events m @ (if truthy (error_callback m) then [Error busy_message] else [])"
  have d: "download_content env url ty dir m =
      (guarded_result (error_callback m) (Error busy_message), m\<lparr>events := ?evs\<rparr>)"
    using assms by (simp add: download_content_alt delivered_def)
  have "thread_run env' (m\<lparr>events := ?evs\<rparr>) =
      (fst (thread_run env' m), (snd (thread_run env' m))\<lparr>events := ?evs @ emitted (thread_run env') m\<rparr>)"
    by (rule run_with_log [OF stable_thread_run])
  moreover have "events (snd (thread_run env' m)) = events m @ emitted (thread_run env') m"
    by (rule events_extend [OF stable_thread_run])
  ultimately show ?thesis using d by simp
qed

theorem busy_submission_rejected_witness:
  "is_downloading busy_manager \<and>
   download_content scenario_env ''https://example.com/y.jpg'' ''image'' ''/tmp/out'' busy_manager =
     (Inr (), busy_manager\<lparr>events := [Error busy_message]\<rparr>) \<and>
   threads (snd (download_content scenario_env ''https://example.com/y.jpg'' ''image'' ''/tmp/out'' busy_manager)) =
     threads busy_manager"
proof -
  have h: "is_downloading busy_manager" by (simp add: busy_manager_eq)
  have c: "error_callback busy_manager = returning_handler" "events busy_manager = []"
    by (simp_all add: busy_manager_eq listening_manager_simps)
  from busy_submission_rejected [OF h, of scenario_env "''https://example.com/y.jpg''" "''image''" "''/tmp/out''"]
  show ?thesis using h c by (simp add: handler_simps)
qed

text \<open>
  Claim C2 as stated fails: a request whose content kind is not video, audio or image
  passes \<^verbatim>\<open>download_content\<close>. The busy flag is set and a worker thread is started.
\<close>

theorem unknown_kind_starts_worker:
  "\<not> is_downloading listening_manager \<and>
   is_downloading (snd (download_content scenario_env ''https://example.com/x.jpg'' ''pdf'' ''/tmp/out''
                          listening_manager)) \<and>
   threads (snd (download_content scenario_env ''https://example.com/x.jpg'' ''pdf'' ''/tmp/out''
                   listening_manager)) = [(''https://example.com/x.jpg'', ''pdf'', ''/tmp/out'')]"
  by (simp add: download_content_def listening_manager_simps scenario_env_def)

text \<open>
  Claim C2, amended. A call of \<^verbatim>\<open>download_content\<close> on an idle manager with a
  destination that is not an existing directory is rejected at once: the error callback,
  if registered, receives the message, no thread is started and the busy flag stays
  false. With an existing directory every request is accepted, whatever its URL and
  content kind: the flag is set and a thread is started. A kind other than video, audio
  and image is rejected by the worker, which reports it through the error callback and,
  when the callback has returned, clears the flag.
\<close>

theorem missing_directory_rejected:
  "(\<not> is_downloading m \<and> \<not> isdir env dir \<longrightarrow>
      download_content env url ty dir m =
        (guarded_result (error_callback m) (Error (''Output directory does not exist: '' @ dir)),
         m\<lparr>events := events m @
           (if truthy (error_callback m)
            then [Error (''Output directory does not exist: '' @ dir)] else [])\<rparr>)) \<and>
   (\<not> is_downloading m2 \<and> isdir env2 dir2 \<longrightarrow>
      download_content env2 url2 ty2 dir2 m2 =
        (Inr (), m2\<lparr>is_downloading := True, threads := threads m2 @ [(url2, ty2, dir2)]\<rparr>)) \<and>
   (ty3 \<noteq> ''video'' \<and> ty3 \<noteq> ''audio'' \<and> ty3 \<noteq> ''image'' \<and>
    guarded_result (error_callback m3) (Error (''Invalid download type: '' @ ty3)) = Inr () \<longrightarrow>
      run_download_task env3 url3 ty3 dir3 m3 =
        (Inr (), m3\<lparr>events := events m3 @
           (if truthy (error_callback m3)
            then [Error (''Invalid download type: '' @ ty3)] else []),
           is_downloading := False\<rparr>))"
  by (auto simp: download_content_alt run_download_task_invalid invalid_type_events_def delivered_def)

theorem missing_directory_rejected_witness:
  "\<not> is_downloading listening_manager \<and> \<not> isdir scenario_env ''/tmp/nowhere'' \<and>
   download_content scenario_env ''https://example.com/x.jpg'' ''image'' ''/tmp/nowhere'' listening_manager =
     (Inr (), listening_manager\<lparr>events := [Error ''Output directory does not exist: /tmp/nowhere'']\<rparr>) \<and>
   isdir scenario_env ''/tmp/out'' \<and>
   download_content scenario_env ''ftp:/%%'' ''pdf'' ''/tmp/out'' listening_manager =
     (Inr (), listening_manager\<lparr>is_downloading := True, threads := [(''ftp:/%%'', ''pdf'', ''/tmp/out'')]\<rparr>) \<and>
   run_download_task scenario_env ''ftp:/%%'' ''pdf'' ''/tmp/out'' busy_manager =
     (Inr (), busy_manager\<lparr>events := [Error ''Invalid download type: pdf''], is_downloading := False\<rparr>)"
proof -
  have h: "\<not> is_downloading listening_manager" "\<not> isdir scenario_env ''/tmp/nowhere''"
    "isdir scenario_env ''/tmp/out''" "''pdf'' \<noteq> ''video''" "''pdf'' \<noteq> ''audio''" "''pdf'' \<noteq> ''image''"
    by (simp_all add: listening_manager_simps scenario_env_def)
  have c: "error_callback listening_manager = returning_handler" "events listening_manager = []"
    "threads listening_manager = []" "error_callback busy_manager = returning_handler"
    "events busy_manager = []"
    by (simp_all add: busy_manager_eq listening_manager_simps)
  from missing_directory_rejected [of listening_manager scenario_env "''/tmp/nowhere''"
      "''https://example.com/x.jpg''" "''image''" listening_manager scenario_env "''/tmp/out''"
      "''ftp:/%%''" "''pdf''" "''pdf''" busy_manager scenario_env "''ftp:/%%''" "''/tmp/out''"]
  show ?thesis using h c by (simp add: handler_simps)
qed

subsection \<open>Release of the busy flag\<close>

lemma offline_image_except:
  "download_image_except offline_env ''https://example.com/x.jpg'' ''/tmp/out'' busy_manager =
     (Inr (),
      busy_manager
        \<lparr>events := [Error ''Network error downloading image from https://example.com/x.jpg: connection refused''],
          http_calls := [''https://example.com/x.jpg'']\<rparr>)"
  by (simp add: download_image_except_alt download_image_try_alt image_fetch_unfold offline_env_def
      busy_manager_eq listening_manager_simps handler_simps image_error_message_def)

text \<open>
  Claim C3 as stated fails: the flag is cleared in the \<^verbatim>\<open>finally\<close> clause, which runs
  after the error callback has been called. Here the network is down. When the error
  outcome of the request has been delivered and the \<^verbatim>\<open>finally\<close> clause has not yet run, the
  manager is still busy, and a valid submission made then is rejected. The worker ends
  in this state with the flag cleared.
\<close>

theorem resubmission_on_error_outcome_rejected:
  "events (snd (download_image_except offline_env ''https://example.com/x.jpg'' ''/tmp/out'' busy_manager)) =
     [Error ''Network error downloading image from https://example.com/x.jpg: connection refused''] \<and>
   is_downloading (snd (download_image_except offline_env ''https://example.com/x.jpg'' ''/tmp/out''
                          busy_manager)) \<and>
   isdir scenario_env ''/tmp/out'' \<and>
   download_content scenario_env ''https://example.com/x.jpg'' ''image'' ''/tmp/out''
     (snd (download_image_except offline_env ''https://example.com/x.jpg'' ''/tmp/out'' busy_manager)) =
     (Inr (),
      (snd (download_image_except offline_env ''https://example.com/x.jpg'' ''/tmp/out'' busy_manager))
        \<lparr>events :=
           [Error ''Network error downloading image from https://example.com/x.jpg: connection refused'',
            Error ''A download is already in progress. Please wait.'']\<rparr>) \<and>
   run_download_task offline_env ''https://example.com/x.jpg'' ''image'' ''/tmp/out'' busy_manager =
     (Inr (),
      (snd (download_image_except offline_env ''https://example.com/x.jpg'' ''/tmp/out'' busy_manager))
        \<lparr>is_downloading := False\<rparr>)"
  unfolding run_download_task_image download_image_finally offline_image_except
  by (simp add: download_content_alt busy_message_def busy_manager_eq listening_manager_simps
      handler_simps scenario_env_def)

text \<open>
  Claim C3, amended. The worker of a video, audio or image request ends with the busy
  flag cleared, whatever the libraries and the callbacks do: completion, an error
  outcome, an exception of an adapter and an exception of a callback all pass the
  \<^verbatim>\<open>finally\<close> clause. The flag is cleared there and not before: the \<^verbatim>\<open>try\<close> statement
  leaves the flag as it was, with the events of the request delivered, and the method ends
  in that state with the flag cleared. The worker of a request of another kind clears
  the flag when the error callback is not registered or returns. A call of
  \<^verbatim>\<open>download_content\<close> with an existing directory that follows the end of such a worker
  is accepted; one made where the \<^verbatim>\<open>finally\<close> clause starts is rejected as busy.
\<close>

theorem busy_flag_released_at_end:
  "(ty = ''video'' \<or> ty = ''audio'' \<or> ty = ''image'' \<or>
    guarded_result (error_callback m) (Error (''Invalid download type: '' @ ty)) = Inr () \<longrightarrow>
      is_downloading (snd (run_download_task env url ty dir m)) = False \<and>
      (isdir env' dir' \<longrightarrow>
         download_content env' url' ty' dir' (snd (run_download_task env url ty dir m)) =
           (Inr (), (snd (run_download_task env url ty dir m))
              \<lparr>is_downloading := True,
                threads := threads (snd (run_download_task env url ty dir m)) @ [(url', ty', dir')]\<rparr>))) \<and>
   download_image env url dir m =
     (fst (download_image_except env url dir m),
      (snd (download_image_except env url dir m))\<lparr>is_downloading := False\<rparr>) \<and>
   is_downloading (snd (download_image_except env url dir m)) = is_downloading m \<and>
   download_video_audio env url dir ty m =
     (fst (download_video_audio_except env url dir ty m),
      (snd (download_video_audio_except env url dir ty m))\<lparr>is_downloading := False\<rparr>) \<and>
   is_downloading (snd (download_video_audio_except env url dir ty m)) = is_downloading m \<and>
   (is_downloading m \<longrightarrow>
      threads (snd (download_content env' url' ty' dir' (snd (download_image_except env url dir m)))) =
        threads (snd (download_image_except env url dir m)) \<and>
      events (snd (download_content env' url' ty' dir' (snd (download_image_except env url dir m)))) =
        events (snd (download_image_except env url dir m)) @
        (if truthy (error_callback m) then [Error busy_message] else []) \<and>
      threads (snd (download_content env' url' ty' dir'
                      (snd (download_video_audio_except env url dir ty m)))) =
        threads (snd (download_video_audio_except env url dir ty m)) \<and>
      events (snd (download_content env' url' ty' dir'
                     (snd (download_video_audio_except env url dir ty m)))) =
        events (snd (download_video_audio_except env url dir ty m)) @
        (if truthy (error_callback m) then [Error busy_message] else []))"
proof -
  have r: "is_downloading (snd (run_download_task env url ty dir m)) = False"
    if "ty = ''video'' \<or> ty = ''audio'' \<or> ty = ''image'' \<or>
        guarded_result (error_callback m) (Error (''Invalid download type: '' @ ty)) = Inr ()"
  proof (cases "ty = ''video'' \<or> ty = ''audio'' \<or> ty = ''image''")
    case True
    then show ?thesis by (rule run_download_task_releases)
  next
    case False
    then show ?thesis using that by (simp add: run_download_task_invalid)
  qed
  have i: "is_downloading (snd (download_image_except env url dir m)) = is_downloading m"
    using download_image_except_frame [of env url dir m] by simp
  have v: "is_downloading (snd (download_video_audio_except env url dir ty m)) = is_downloading m"
    by (simp add: download_video_audio_except_alt)
  have ci: "error_callback (snd (download_image_except env url dir m)) = error_callback m"
    by (rule stable_callbacks(3) [OF stable_download_image_except])
  have cv: "error_callback (snd (download_video_audio_except env url dir ty m)) = error_callback m"
    by (rule stable_callbacks(3) [OF stable_download_video_audio_except])
  have w: "threads (snd (download_content env' url' ty' dir' m')) = threads m' \<and>
      events (snd (download_content env' url' ty' dir' m')) =
        events m' @ (if truthy (error_callback m') then [Error busy_message] else [])"
    if "is_downloading m'" for m'
    using that by (simp add: download_content_alt delivered_def)
  have wi: "is_downloading m \<longrightarrow>
      threads (snd (download_content env' url' ty' dir' (snd (download_image_except env url dir m)))) =
        threads (snd (download_image_except env url dir m)) \<and>
      events (snd (download_content env' url' ty' dir' (snd (download_image_except env url dir m)))) =
        events (snd (download_image_except env url dir m)) @
        (if truthy (error_callback m) then [Error busy_message] else [])"
    using w [of "snd (download_image_except env url dir m)"] i ci by simp
  have wv: "is_downloading m \<longrightarrow>
      threads (snd (download_content env' url' ty' dir'
                      (snd (download_video_audio_except env url dir ty m)))) =
        threads (snd (download_video_audio_except env url dir ty m)) \<and>
      events (snd (download_content env' url' ty' dir'
                     (snd (download_video_audio_except env url dir ty m)))) =
        events (snd (download_video_audio_except env url dir ty m)) @
        (if truthy (error_callback m) then [Error busy_message] else [])"
    using w [of "snd (download_video_audio_except env url dir ty m)"] v cv by simp
  have acc: "isdir env' dir' \<longrightarrow>
         download_content env' url' ty' dir' (snd (run_download_task env url ty dir m)) =
           (Inr (), (snd (run_download_task env url ty dir m))
              \<lparr>is_downloading := True,
                threads := threads (snd (run_download_task env url ty dir m)) @ [(url', ty', dir')]\<rparr>)"
    if "is_downloading (snd (run_download_task env url ty dir m)) = False"
    using that by (simp add: download_content_alt)
  show ?thesis
    using r acc i v wi wv download_image_finally [of env url dir m]
      download_video_audio_finally [of env url dir ty m]
    by blast
qed

theorem busy_flag_released_at_end_witness:
  "isdir scenario_env ''/tmp/out'' \<and>
   events (snd (run_download_task offline_env ''https://example.com/x.jpg'' ''image'' ''/tmp/out'' busy_manager)) =
     [Error ''Network error downloading image from https://example.com/x.jpg: connection refused''] \<and>
   is_downloading (snd (run_download_task offline_env ''https://example.com/x.jpg'' ''image'' ''/tmp/out'' busy_manager)) = False \<and>
   is_downloading (snd (download_content scenario_env ''https://example.com/x.jpg'' ''image'' ''/tmp/out''
      (snd (run_download_task offline_env ''https://example.com/x.jpg'' ''image'' ''/tmp/out'' busy_manager))))"
proof -
  have h: "isdir scenario_env ''/tmp/out''" by (simp add: scenario_env_def)
  have e: "events (snd (run_download_task offline_env ''https://example.com/x.jpg'' ''image'' ''/tmp/out'' busy_manager)) =
     [Error ''Network error downloading image from https://example.com/x.jpg: connection refused'']"
    by (simp add: run_download_task_image download_image_finally offline_image_except)
  from busy_flag_released_at_end [of "''image''" busy_manager offline_env "''https://example.com/x.jpg''"
      "''/tmp/out''" scenario_env "''/tmp/out''" "''https://example.com/x.jpg''" "''image''"]
  show ?thesis using h e by simp
qed

text \<open>
  A request of unknown kind with an error callback that raises: the exception ends the
  worker before the assignment that clears the flag.
\<close>

lemma unknown_kind_failing_handler:
  "run_download_task scenario_env ''https://example.com/x.jpg'' ''pdf'' ''/tmp/out''
     (busy_manager\<lparr>error_callback := failing_handler\<rparr>) =
     (Inl (Exception ''handler failed''),
      busy_manager\<lparr>error_callback := failing_handler, events := [Error ''Invalid download type: pdf'']\<rparr>)"
  by (simp add: run_download_task_invalid invalid_type_events_def handler_simps busy_manager_eq
      listening_manager_simps)

subsection \<open>Outcomes, configuration and callbacks\<close>

lemma truthy_iff: "truthy f \<longleftrightarrow> f \<noteq> PyNone"
  by (cases f) simp_all

lemma filter_progress_outcome: "\<forall>e \<in> set xs. is_outcome e \<Longrightarrow> filter is_progress xs = []"
proof (induction xs)
  case Nil
  then show ?case by simp
next
  case (Cons x xs)
  then show ?case by (cases x) simp_all
qed

lemma filter_progress_all: "\<forall>e \<in> set xs. is_progress e \<Longrightarrow> filter is_progress xs = xs"
  by (induction xs) simp_all

lemma filter_outcome_progress: "\<forall>e \<in> set xs. is_progress e \<Longrightarrow> filter is_outcome xs = []"
proof (induction xs)
  case Nil
  then show ?case by simp
next
  case (Cons x xs)
  then show ?case by (cases x) simp_all
qed

lemma filter_outcome_all: "\<forall>e \<in> set xs. is_outcome e \<Longrightarrow> filter is_outcome xs = xs"
  by (induction xs) simp_all

lemma image_outcome_returning:
  assumes "\<forall>ev. guarded_result (completion_callback m) ev = Inr ()"
  shows "image_outcome env url dir m =
     (case fst (download_image_try env url dir m) of
        Inl e \<Rightarrow> delivered (error_callback m) (Error (image_error_message url e))
      | Inr u \<Rightarrow> delivered (completion_callback m) (Completion (image_target url dir)))"
proof (cases "fst (image_fetch env url dir m)")
  case (Inl e)
  then show ?thesis by (simp add: image_outcome_def download_image_try_result)
next
  case (Inr fp)
  then have "fp = image_target url dir" by (rule image_fetch_target)
  then show ?thesis using Inr assms by (simp add: image_outcome_def download_image_try_result)
qed

lemma video_outcome_returning:
  assumes "\<forall>ev. guarded_result (completion_callback m) ev = Inr ()"
  shows "video_outcome env url dir ty m =
     (case fst (download_video_audio_try env url dir ty m) of
        Inl e \<Rightarrow> delivered (error_callback m) (Error (''Error downloading '' @ url @ '': '' @ str_exn e))
      | Inr u \<Rightarrow> delivered (completion_callback m) (Completion (video_message url dir)))"
  using assms
  by (cases "raised (video_run env url dir ty m)")
    (simp_all add: video_outcome_def download_video_audio_try_result video_error_message_def)

lemma download_image_try_failures:
  assumes "\<forall>ev. guarded_result (completion_callback m) ev = Inr ()"
  shows "requests_get env url = Inl e \<Longrightarrow> fst (download_image_try env url dir m) = Inl e"
    and "requests_get env url = Inr resp \<Longrightarrow> http_error resp = Some e \<Longrightarrow>
       fst (download_image_try env url dir m) = Inl e"
    and "requests_get env url = Inr resp \<Longrightarrow> http_error resp = None \<Longrightarrow>
       urlparse_path env url = Inr path \<Longrightarrow> content_length_int env resp = Inr T \<Longrightarrow>
       open_error env (os_path_join dir (image_filename path)) = Some e \<Longrightarrow>
       fst (download_image_try env url dir m) = Inl e"
  by (simp_all add: download_image_try_result image_fetch_failures)

lemma silent_worker_emits_nothing:
  assumes "\<not> truthy (progress_callback m)" and "\<not> truthy (completion_callback m)"
    and "\<not> truthy (error_callback m)"
  shows "emitted (run_download_task env url ty dir) m = []"
proof -
  obtain ps where ps: "emitted (run_download_task env url ty dir) m = ps @ task_outcome env url ty dir m"
    "\<not> truthy (progress_callback m) \<longrightarrow> ps = []"
    using run_download_task_emitted by blast
  have "task_outcome env url ty dir m = []"
  proof (cases "task_outcome env url ty dir m")
    case Nil
    then show ?thesis .
  next
    case (Cons x xs)
    then have x: "x \<in> set (task_outcome env url ty dir m)" by simp
    then have "is_outcome x" using task_outcome_facts(2) by blast
    then show ?thesis
      using x task_outcome_facts(5) [OF assms(2), of _ env url ty dir]
        task_outcome_facts(6) [OF assms(3), of _ env url ty dir]
      by (cases x) auto
  qed
  then show ?thesis using ps assms(1) by simp
qed

text \<open>
  Claim C4 as stated fails: the callbacks are optional, and an outcome whose callback is
  not registered is delivered to nobody. A manager created without arguments accepts an
  image request; its worker downloads the file and returns, and no event at all has been
  delivered.
\<close>

theorem default_manager_delivers_no_outcome:
  "download_content scenario_env ''https://example.com/x.jpg'' ''image'' ''/tmp/out'' silent_manager =
     (Inr (), silent_manager\<lparr>is_downloading := True,
                threads := [(''https://example.com/x.jpg'', ''image'', ''/tmp/out'')]\<rparr>) \<and>
   fst (thread_run scenario_env
          (snd (download_content scenario_env ''https://example.com/x.jpg'' ''image'' ''/tmp/out''
                  silent_manager))) = Inr () \<and>
   events (snd (thread_run scenario_env
          (snd (download_content scenario_env ''https://example.com/x.jpg'' ''image'' ''/tmp/out''
                  silent_manager)))) = [] \<and>
   filter is_outcome (events (snd (thread_run scenario_env
          (snd (download_content scenario_env ''https://example.com/x.jpg'' ''image'' ''/tmp/out''
                  silent_manager))))) = []"
proof -
  let ?url = "''https://example.com/x.jpg''"
  let ?m = "silent_manager\<lparr>is_downloading := True, threads := []\<rparr>"
  have dc: "download_content scenario_env ?url ''image'' ''/tmp/out'' silent_manager =
      (Inr (), silent_manager\<lparr>is_downloading := True, threads := [(?url, ''image'', ''/tmp/out'')]\<rparr>)"
    by (simp add: download_content_alt silent_manager_simps scenario_env_def)
  have tr: "thread_run scenario_env
      (silent_manager\<lparr>is_downloading := True, threads := [(?url, ''image'', ''/tmp/out'')]\<rparr>) =
      run_download_task scenario_env ?url ''image'' ''/tmp/out'' ?m"
    by (simp add: thread_run_def)
  have s: "\<not> truthy (progress_callback ?m)" "\<not> truthy (completion_callback ?m)"
    "\<not> truthy (error_callback ?m)" "events ?m = []"
    by (simp_all add: silent_manager_simps)
  have em: "emitted (run_download_task scenario_env ?url ''image'' ''/tmp/out'') ?m = []"
    by (rule silent_worker_emits_nothing [OF s(1-3)])
  have ev: "events (snd (run_download_task scenario_env ?url ''image'' ''/tmp/out'' ?m)) = []"
    using events_extend [OF stable_run_download_task, of scenario_env ?url "''image''" "''/tmp/out''" ?m]
      em s(4) by simp
  have r: "fst (run_download_task scenario_env ?url ''image'' ''/tmp/out'' ?m) = Inr ()"
    using s(3) by (simp add: run_download_task_result task_result_returns)
  show ?thesis
    unfolding dc snd_conv tr using ev r by simp
qed

text \<open>
  Claim C4, amended. Let the completion callback and the error callback return for every
  argument (a callback that is not registered is not called). Then the worker of every
  accepted request returns without an exception, and the events it delivers are
  progress events followed by at most one outcome event. When both callbacks are
  registered there is exactly one outcome event, the last event; all events before it
  are progress events. An exception that leaves the \<^verbatim>\<open>try\<close> block of an adapter is the
  text of that outcome, an error, when the error callback is registered; a \<^verbatim>\<open>try\<close> block
  that ends normally gives a completion, when the completion callback is registered. In
  particular a failure of \<^verbatim>\<open>requests.get\<close>, an HTTP error status, a failure to open
  the destination file and a failure of the extraction engine each end in an error event.
\<close>

theorem one_outcome_when_handlers_return:
  assumes "\<forall>ev. guarded_result (completion_callback m) ev = Inr ()"
    and "\<forall>ev. guarded_result (error_callback m) ev = Inr ()"
  shows
    "fst (run_download_task env url ty dir m) = Inr () \<and>
     events (snd (run_download_task env url ty dir m)) =
       events m @ emitted (run_download_task env url ty dir) m \<and>
     emitted (run_download_task env url ty dir) m =
       filter is_progress (emitted (run_download_task env url ty dir) m) @
       filter is_outcome (emitted (run_download_task env url ty dir) m) \<and>
     length (filter is_outcome (emitted (run_download_task env url ty dir) m)) \<le> 1 \<and>
     (truthy (completion_callback m) \<and> truthy (error_callback m) \<longrightarrow>
        emitted (run_download_task env url ty dir) m \<noteq> [] \<and>
        filter is_outcome (emitted (run_download_task env url ty dir) m) =
          [last (emitted (run_download_task env url ty dir) m)] \<and>
        (\<forall>e \<in> set (butlast (emitted (run_download_task env url ty dir) m)). is_progress e)) \<and>
     (\<forall>e. ty = ''image'' \<and> truthy (error_callback m) \<and>
          fst (download_image_try env url dir m) = Inl e \<longrightarrow>
          last (emitted (run_download_task env url ty dir) m) = Error (image_error_message url e)) \<and>
     (ty = ''image'' \<and> truthy (completion_callback m) \<and>
          fst (download_image_try env url dir m) = Inr () \<longrightarrow>
          last (emitted (run_download_task env url ty dir) m) = Completion (image_target url dir)) \<and>
     (\<forall>e. (ty = ''video'' \<or> ty = ''audio'') \<and> truthy (error_callback m) \<and>
          fst (download_video_audio_try env url dir ty m) = Inl e \<longrightarrow>
          last (emitted (run_download_task env url ty dir) m) =
            Error (''Error downloading '' @ url @ '': '' @ str_exn e)) \<and>
     ((ty = ''video'' \<or> ty = ''audio'') \<and> truthy (completion_callback m) \<and>
          fst (download_video_audio_try env url dir ty m) = Inr () \<longrightarrow>
          last (emitted (run_download_task env url ty dir) m) = Completion (video_message url dir)) \<and>
     (\<forall>e. ty = ''image'' \<and> truthy (error_callback m) \<and> requests_get env url = Inl e \<longrightarrow>
          last (emitted (run_download_task env url ty dir) m) = Error (image_error_message url e)) \<and>
     (\<forall>resp e. ty = ''image'' \<and> truthy (error_callback m) \<and>
          requests_get env url = Inr resp \<and> http_error resp = Some e \<longrightarrow>
          last (emitted (run_download_task env url ty dir) m) = Error (image_error_message url e)) \<and>
     (\<forall>resp path T e. ty = ''image'' \<and> truthy (error_callback m) \<and>
          requests_get env url = Inr resp \<and> http_error resp = None \<and>
          urlparse_path env url = Inr path \<and> content_length_int env resp = Inr T \<and>
          open_error env (os_path_join dir (image_filename path)) = Some e \<longrightarrow>
          last (emitted (run_download_task env url ty dir) m) = Error (image_error_message url e)) \<and>
     (\<forall>e. (ty = ''video'' \<or> ty = ''audio'') \<and> truthy (error_callback m) \<and>
          raised (ydl_download env (ydl_opts dir ty) [url] (hook_outcome m)) = Some e \<longrightarrow>
          last (emitted (run_download_task env url ty dir) m) =
            Error (''Error downloading '' @ url @ '': '' @ str_exn e))"
proof -
  let ?em = "emitted (run_download_task env url ty dir) m"
  let ?outs = "task_outcome env url ty dir m"
  obtain ps where ps: "?em = ps @ ?outs" "\<forall>e \<in> set ps. is_progress e"
    using run_download_task_emitted by blast
  have oo: "\<forall>e \<in> set ?outs. is_outcome e" by (rule task_outcome_facts(2))
  have fp: "filter is_progress ?em = ps"
    unfolding ps(1) using ps(2) oo by (simp add: filter_progress_all filter_progress_outcome)
  have fo: "filter is_outcome ?em = ?outs"
    unfolding ps(1) using ps(2) oo by (simp add: filter_outcome_all filter_outcome_progress)
  have le: "length ?outs \<le> 1" using assms(1) by (rule task_outcome_facts(3))
  have single: "last ?em = x" if "?outs = [x]" for x
    using that by (simp add: ps(1))
  have both: "?em \<noteq> [] \<and> filter is_outcome ?em = [last ?em] \<and> (\<forall>e \<in> set (butlast ?em). is_progress e)"
    if "truthy (completion_callback m)" "truthy (error_callback m)"
  proof -
    have "length ?outs = 1" using assms(1) that by (rule task_outcome_facts(4))
    then obtain out where out: "?outs = [out]" by (cases ?outs) simp_all
    have "?em = ps @ [out]" using ps(1) out by simp
    then show ?thesis using fo out ps(2) by simp
  qed
  have i1: "last ?em = Error (image_error_message url e)"
    if "ty = ''image''" "truthy (error_callback m)" "fst (download_image_try env url dir m) = Inl e" for e
    using that by (intro single) (simp add: task_outcome_def image_outcome_returning [OF assms(1)])
  have i2: "last ?em = Completion (image_target url dir)"
    if "ty = ''image''" "truthy (completion_callback m)" "fst (download_image_try env url dir m) = Inr ()"
    using that by (intro single) (simp add: task_outcome_def image_outcome_returning [OF assms(1)])
  have v1: "last ?em = Error (''Error downloading '' @ url @ '': '' @ str_exn e)"
    if "ty = ''video'' \<or> ty = ''audio''" "truthy (error_callback m)"
      "fst (download_video_audio_try env url dir ty m) = Inl e" for e
    using that by (intro single) (auto simp: task_outcome_def video_outcome_returning [OF assms(1)])
  have v2: "last ?em = Completion (video_message url dir)"
    if "ty = ''video'' \<or> ty = ''audio''" "truthy (completion_callback m)"
      "fst (download_video_audio_try env url dir ty m) = Inr ()"
    using that by (intro single) (auto simp: task_outcome_def video_outcome_returning [OF assms(1)])
  note f = download_image_try_failures [OF assms(1)]
  show ?thesis
  proof (intro conjI)
    show "fst (run_download_task env url ty dir m) = Inr ()"
      using assms(2) by (simp add: run_download_task_result task_result_returns)
    show "events (snd (run_download_task env url ty dir m)) = events m @ ?em"
      by (rule events_extend [OF stable_run_download_task])
    show "?em = filter is_progress ?em @ filter is_outcome ?em"
      unfolding fp fo by (rule ps(1))
    show "length (filter is_outcome ?em) \<le> 1" unfolding fo by (rule le)
    show "truthy (completion_callback m) \<and> truthy (error_callback m) \<longrightarrow>
        ?em \<noteq> [] \<and> filter is_outcome ?em = [last ?em] \<and> (\<forall>e \<in> set (butlast ?em). is_progress e)"
      using both by blast
    show "\<forall>e. ty = ''image'' \<and> truthy (error_callback m) \<and>
          fst (download_image_try env url dir m) = Inl e \<longrightarrow>
          last ?em = Error (image_error_message url e)"
      using i1 by blast
    show "ty = ''image'' \<and> truthy (completion_callback m) \<and>
          fst (download_image_try env url dir m) = Inr () \<longrightarrow>
          last ?em = Completion (image_target url dir)"
      using i2 by blast
    show "\<forall>e. (ty = ''video'' \<or> ty = ''audio'') \<and> truthy (error_callback m) \<and>
          fst (download_video_audio_try env url dir ty m) = Inl e \<longrightarrow>
          last ?em = Error (''Error downloading '' @ url @ '': '' @ str_exn e)"
      using v1 by blast
    show "(ty = ''video'' \<or> ty = ''audio'') \<and> truthy (completion_callback m) \<and>
          fst (download_video_audio_try env url dir ty m) = Inr () \<longrightarrow>
          last ?em = Completion (video_message url dir)"
      using v2 by blast
    show "\<forall>e. ty = ''image'' \<and> truthy (error_callback m) \<and> requests_get env url = Inl e \<longrightarrow>
          last ?em = Error (image_error_message url e)"
      using i1 f(1) [of env url _ dir] by blast
    show "\<forall>resp e. ty = ''image'' \<and> truthy (error_callback m) \<and>
          requests_get env url = Inr resp \<and> http_error resp = Some e \<longrightarrow>
          last ?em = Error (image_error_message url e)"
      using i1 f(2) [of env url _ _ dir] by blast
    show "\<forall>resp path T e. ty = ''image'' \<and> truthy (error_callback m) \<and>
          requests_get env url = Inr resp \<and> http_error resp = None \<and>
          urlparse_path env url = Inr path \<and> content_length_int env resp = Inr T \<and>
          open_error env (os_path_join dir (image_filename path)) = Some e \<longrightarrow>
          last ?em = Error (image_error_message url e)"
      using i1 f(3) [of env url _ _ _ dir] by blast
    show "\<forall>e. (ty = ''video'' \<or> ty = ''audio'') \<and> truthy (error_callback m) \<and>
          raised (ydl_download env (ydl_opts dir ty) [url] (hook_outcome m)) = Some e \<longrightarrow>
          last ?em = Error (''Error downloading '' @ url @ '': '' @ str_exn e)"
      using v1 by (simp add: download_video_audio_try_result video_run_def)
  qed
qed

theorem one_outcome_when_handlers_return_witness:
  "truthy (completion_callback busy_manager) \<and> truthy (error_callback busy_manager) \<and>
   raised (ydl_download offline_env (ydl_opts ''/tmp/out'' ''video'') [''https://example.com/watch'']
             (hook_outcome busy_manager)) =
     Some (Exception ''unable to download'') \<and>
   fst (run_download_task offline_env ''https://example.com/watch'' ''video'' ''/tmp/out'' busy_manager) =
     Inr () \<and>
   filter is_outcome
     (emitted (run_download_task offline_env ''https://example.com/watch'' ''video'' ''/tmp/out'')
        busy_manager) =
     [Error ''Error downloading https://example.com/watch: unable to download'']"
proof -
  have c: "completion_callback busy_manager = returning_handler"
    "error_callback busy_manager = returning_handler"
    by (simp_all add: busy_manager_eq listening_manager_simps)
  have h: "\<forall>ev. guarded_result (completion_callback busy_manager) ev = Inr ()"
    "\<forall>ev. guarded_result (error_callback busy_manager) ev = Inr ()"
    by (simp_all add: c handler_simps)
  have t: "truthy (completion_callback busy_manager)" "truthy (error_callback busy_manager)"
    by (simp_all add: c handler_simps)
  have r: "raised (ydl_download offline_env (ydl_opts ''/tmp/out'' ''video'') [''https://example.com/watch'']
             (hook_outcome busy_manager)) =
     Some (Exception ''unable to download'')"
    by (simp add: offline_env_def)
  note a = one_outcome_when_handlers_return [OF h, of offline_env "''https://example.com/watch''" "''video''" "''/tmp/out''"]
  have "last (emitted (run_download_task offline_env ''https://example.com/watch'' ''video'' ''/tmp/out'')
        busy_manager) = Error (''Error downloading '' @ ''https://example.com/watch'' @ '': '' @
          str_exn (Exception ''unable to download''))"
    using a r t by blast
  moreover have "filter is_outcome
     (emitted (run_download_task offline_env ''https://example.com/watch'' ''video'' ''/tmp/out'')
        busy_manager) =
     [last (emitted (run_download_task offline_env ''https://example.com/watch'' ''video'' ''/tmp/out'')
        busy_manager)]"
    using a t by blast
  moreover have "fst (run_download_task offline_env ''https://example.com/watch'' ''video'' ''/tmp/out''
      busy_manager) = Inr ()"
    using a by blast
  ultimately show ?thesis using t r by simp
qed

text \<open>
  Claim C9. A request of kind video or audio goes to the extraction engine and not to
  \<^verbatim>\<open>requests.get\<close>. The options passed have \<^verbatim>\<open>retries\<close> 3, \<^verbatim>\<open>fragment_retries\<close> 3 and
  \<^verbatim>\<open>ignoreerrors\<close> true. For video the format is the ranked list ending in \<^verbatim>\<open>best\<close> and
  there is no post-processor; for audio the format is \<^verbatim>\<open>bestaudio/best\<close> and the
  post-processor \<^verbatim>\<open>FFmpegExtractAudio\<close> transcodes to mp3 at quality 192.
\<close>

theorem extraction_adapter_configuration:
  "ydl_calls (snd (run_download_task env url ''video'' dir m)) =
     ydl_calls m @ [(ydl_opts dir ''video'', [url])] \<and>
   http_calls (snd (run_download_task env url ''video'' dir m)) = http_calls m \<and>
   ydl_calls (snd (run_download_task env url ''audio'' dir m)) =
     ydl_calls m @ [(ydl_opts dir ''audio'', [url])] \<and>
   http_calls (snd (run_download_task env url ''audio'' dir m)) = http_calls m \<and>
   map_of (ydl_opts dir ''video'') ''retries'' = Some (PyInt 3) \<and>
   map_of (ydl_opts dir ''video'') ''fragment_retries'' = Some (PyInt 3) \<and>
   map_of (ydl_opts dir ''video'') ''ignoreerrors'' = Some (PyBool True) \<and>
   map_of (ydl_opts dir ''video'') ''format'' =
     Some (PyStr ''bestvideo[ext=mp4]+bestaudio[ext=m4a]/best[ext=mp4]/best'') \<and>
   map_of (ydl_opts dir ''video'') ''postprocessors'' = None \<and>
   map_of (ydl_opts dir ''audio'') ''retries'' = Some (PyInt 3) \<and>
   map_of (ydl_opts dir ''audio'') ''fragment_retries'' = Some (PyInt 3) \<and>
   map_of (ydl_opts dir ''audio'') ''ignoreerrors'' = Some (PyBool True) \<and>
   map_of (ydl_opts dir ''audio'') ''format'' = Some (PyStr ''bestaudio/best'') \<and>
   map_of (ydl_opts dir ''audio'') ''postprocessors'' =
     Some (PyList [PyDict [(''key'', PyStr ''FFmpegExtractAudio''),
                           (''preferredcodec'', PyStr ''mp3''),
                           (''preferredquality'', PyStr ''192'')]]) \<and>
   map_of (ydl_opts dir ''audio'') ''extract_audio'' = Some (PyBool True)"
proof -
  have c: "ydl_calls (snd (run_download_task env url ty dir m)) = ydl_calls m @ [(ydl_opts dir ty, [url])] \<and>
      http_calls (snd (run_download_task env url ty dir m)) = http_calls m"
    if "ty = ''video'' \<or> ty = ''audio''" for ty
    using that by (simp add: run_download_task_video_audio download_video_audio_alt)
  have o: "map_of (ydl_opts dir ''video'') ''retries'' = Some (PyInt 3) \<and>
   map_of (ydl_opts dir ''video'') ''fragment_retries'' = Some (PyInt 3) \<and>
   map_of (ydl_opts dir ''video'') ''ignoreerrors'' = Some (PyBool True) \<and>
   map_of (ydl_opts dir ''video'') ''format'' =
     Some (PyStr ''bestvideo[ext=mp4]+bestaudio[ext=m4a]/best[ext=mp4]/best'') \<and>
   map_of (ydl_opts dir ''video'') ''postprocessors'' = None \<and>
   map_of (ydl_opts dir ''audio'') ''retries'' = Some (PyInt 3) \<and>
   map_of (ydl_opts dir ''audio'') ''fragment_retries'' = Some (PyInt 3) \<and>
   map_of (ydl_opts dir ''audio'') ''ignoreerrors'' = Some (PyBool True) \<and>
   map_of (ydl_opts dir ''audio'') ''format'' = Some (PyStr ''bestaudio/best'') \<and>
   map_of (ydl_opts dir ''audio'') ''postprocessors'' =
     Some (PyList [PyDict [(''key'', PyStr ''FFmpegExtractAudio''),
                           (''preferredcodec'', PyStr ''mp3''),
                           (''preferredquality'', PyStr ''192'')]]) \<and>
   map_of (ydl_opts dir ''audio'') ''extract_audio'' = Some (PyBool True)"
    by (simp add: ydl_opts_def dict_update_def)
  show ?thesis using c [of "''video''"] c [of "''audio''"] o by simp
qed

theorem extraction_adapter_configuration_witness:
  "ydl_calls (snd (run_download_task scenario_env ''https://example.com/watch'' ''audio'' ''/tmp/out''
                     busy_manager)) =
     [([(''outtmpl'', PyStr ''/tmp/out/%(title)s.%(ext)s''),
        (''progress_hooks'', PyList [PyBoundMethod ''_yt_dlp_hook'']),
        (''retries'', PyInt 3),
        (''fragment_retries'', PyInt 3),
        (''ignoreerrors'', PyBool True),
        (''format'', PyStr ''bestaudio/best''),
        (''postprocessors'',
           PyList [PyDict [(''key'', PyStr ''FFmpegExtractAudio''),
                           (''preferredcodec'', PyStr ''mp3''),
                           (''preferredquality'', PyStr ''192'')]]),
        (''extract_audio'', PyBool True)],
       [''https://example.com/watch''])]"
proof -
  have o: "ydl_opts ''/tmp/out'' ''audio'' =
     [(''outtmpl'', PyStr ''/tmp/out/%(title)s.%(ext)s''),
        (''progress_hooks'', PyList [PyBoundMethod ''_yt_dlp_hook'']),
        (''retries'', PyInt 3),
        (''fragment_retries'', PyInt 3),
        (''ignoreerrors'', PyBool True),
        (''format'', PyStr ''bestaudio/best''),
        (''postprocessors'',
           PyList [PyDict [(''key'', PyStr ''FFmpegExtractAudio''),
                           (''preferredcodec'', PyStr ''mp3''),
                           (''preferredquality'', PyStr ''192'')]]),
        (''extract_audio'', PyBool True)]"
    by (simp add: ydl_opts_def dict_update_def os_path_join_def)
  have c: "ydl_calls busy_manager = []" by (simp add: busy_manager_eq listening_manager_simps)
  from extraction_adapter_configuration [of scenario_env "''https://example.com/watch''" "''/tmp/out''" busy_manager]
  show ?thesis using o c by simp
qed

text \<open>
  Claim C10. The three callbacks default to \<^verbatim>\<open>None\<close>. Every call of a callback is
  guarded, so that an operation of the manager raises only what a registered callback
  raises: the hook and \<^verbatim>\<open>download_content\<close> give their caller what the guarded call gives,
  and a download or a worker whose error callback is \<^verbatim>\<open>None\<close>, or returns, returns. An
  event whose callback is \<^verbatim>\<open>None\<close> is dropped: without a progress callback the hook
  does nothing and a download delivers no progress event, without a completion callback
  it delivers no completion, without an error callback it delivers no error and a
  rejected submission leaves the state as it was.
\<close>

theorem optional_callbacks_safe:
  "progress_callback (DownloadManager None None None) = PyNone \<and>
   completion_callback (DownloadManager None None None) = PyNone \<and>
   error_callback (DownloadManager None None None) = PyNone \<and>
   fst (yt_dlp_hook d m) = guarded_result (progress_callback m) (Progress d) \<and>
   guarded_result PyNone ev = Inr () \<and>
   fst (download_content env url ty dir m) =
     (if is_downloading m
      then guarded_result (error_callback m) (Error ''A download is already in progress. Please wait.'')
      else if \<not> isdir env dir
      then guarded_result (error_callback m) (Error (''Output directory does not exist: '' @ dir))
      else Inr ()) \<and>
   ((\<forall>ev. guarded_result (error_callback m) ev = Inr ()) \<longrightarrow>
      fst (download_video_audio env url dir ty m) = Inr () \<and>
      fst (download_image env url dir m) = Inr () \<and>
      fst (download_content env url ty dir m) = Inr () \<and>
      fst (run_download_task env url ty dir m) = Inr ()) \<and>
   events (snd (run_download_task env url ty dir m)) =
     events m @ emitted (run_download_task env url ty dir) m \<and>
   (progress_callback m = PyNone \<longrightarrow>
      yt_dlp_hook d m = (Inr (), m) \<and>
      (\<forall>e \<in> set (emitted (run_download_task env url ty dir) m). \<not> is_progress e)) \<and>
   (completion_callback m = PyNone \<longrightarrow>
      (\<forall>p. Completion p \<notin> set (emitted (run_download_task env url ty dir) m))) \<and>
   (error_callback m = PyNone \<longrightarrow>
      fst (download_video_audio env url dir ty m) = Inr () \<and>
      fst (download_image env url dir m) = Inr () \<and>
      fst (download_content env url ty dir m) = Inr () \<and>
      fst (run_download_task env url ty dir m) = Inr () \<and>
      (\<forall>s. Error s \<notin> set (emitted (run_download_task env url ty dir) m)) \<and>
      (is_downloading m \<or> \<not> isdir env dir \<longrightarrow> download_content env url ty dir m = (Inr (), m)))"
proof -
  obtain ps where ps: "emitted (run_download_task env url ty dir) m = ps @ task_outcome env url ty dir m"
    "\<forall>e \<in> set ps. is_progress e" "\<not> truthy (progress_callback m) \<longrightarrow> ps = []"
    using run_download_task_emitted by blast
  have init: "progress_callback (DownloadManager None None None) = PyNone \<and>
     completion_callback (DownloadManager None None None) = PyNone \<and>
     error_callback (DownloadManager None None None) = PyNone"
    by (simp add: DownloadManager_def default_arg_def)
  have hook: "fst (yt_dlp_hook d m) = guarded_result (progress_callback m) (Progress d)"
    by (simp add: yt_dlp_hook_alt)
  have none: "guarded_result PyNone ev = Inr ()" by (simp add: guarded_result_def)
  have dc: "fst (download_content env url ty dir m) =
     (if is_downloading m
      then guarded_result (error_callback m) (Error ''A download is already in progress. Please wait.'')
      else if \<not> isdir env dir
      then guarded_result (error_callback m) (Error (''Output directory does not exist: '' @ dir))
      else Inr ())"
    by (simp add: download_content_alt busy_message_def)
  have ret: "fst (download_video_audio env url dir ty m) = Inr () \<and>
      fst (download_image env url dir m) = Inr () \<and>
      fst (download_content env url ty dir m) = Inr () \<and>
      fst (run_download_task env url ty dir m) = Inr ()"
    if r: "\<forall>ev. guarded_result (error_callback m) ev = Inr ()"
  proof (intro conjI)
    show "fst (download_video_audio env url dir ty m) = Inr ()"
      using r by (simp add: download_video_audio_alt video_result_def split: option.splits sum.splits)
    show "fst (download_image env url dir m) = Inr ()"
      using r by (simp add: download_image_result image_result_def split: sum.splits)
    show "fst (download_content env url ty dir m) = Inr ()"
      using r by (simp add: dc)
    show "fst (run_download_task env url ty dir m) = Inr ()"
      using r by (simp add: run_download_task_result task_result_returns)
  qed
  have ev: "events (snd (run_download_task env url ty dir m)) =
     events m @ emitted (run_download_task env url ty dir) m"
    by (rule events_extend [OF stable_run_download_task])
  have p: "progress_callback m = PyNone \<longrightarrow>
      yt_dlp_hook d m = (Inr (), m) \<and>
      (\<forall>e \<in> set (emitted (run_download_task env url ty dir) m). \<not> is_progress e)"
  proof
    assume n: "progress_callback m = PyNone"
    have "\<forall>e \<in> set (task_outcome env url ty dir m). \<not> is_progress e"
      using task_outcome_facts(2) [of env url ty dir m] by (metis event.exhaust is_outcome.simps(1) is_progress.simps(2,3))
    then show "yt_dlp_hook d m = (Inr (), m) \<and>
      (\<forall>e \<in> set (emitted (run_download_task env url ty dir) m). \<not> is_progress e)"
      using n ps by (simp add: yt_dlp_hook_def py_return_def)
  qed
  have c: "completion_callback m = PyNone \<longrightarrow>
      (\<forall>p. Completion p \<notin> set (emitted (run_download_task env url ty dir) m))"
    using ps(1,2) task_outcome_facts(5) [of m _ env url ty dir] by auto
  have e: "error_callback m = PyNone \<longrightarrow>
      fst (download_video_audio env url dir ty m) = Inr () \<and>
      fst (download_image env url dir m) = Inr () \<and>
      fst (download_content env url ty dir m) = Inr () \<and>
      fst (run_download_task env url ty dir m) = Inr () \<and>
      (\<forall>s. Error s \<notin> set (emitted (run_download_task env url ty dir) m)) \<and>
      (is_downloading m \<or> \<not> isdir env dir \<longrightarrow> download_content env url ty dir m = (Inr (), m))"
  proof
    assume n: "error_callback m = PyNone"
    then have r: "\<forall>ev. guarded_result (error_callback m) ev = Inr ()"
      by (simp add: guarded_result_def)
    have "\<forall>s. Error s \<notin> set (emitted (run_download_task env url ty dir) m)"
      using n ps(1,2) task_outcome_facts(6) [of m _ env url ty dir] by auto
    moreover have "is_downloading m \<or> \<not> isdir env dir \<longrightarrow> download_content env url ty dir m = (Inr (), m)"
      using n by (auto simp: download_content_def py_return_def)
    ultimately show "fst (download_video_audio env url dir ty m) = Inr () \<and>
      fst (download_image env url dir m) = Inr () \<and>
      fst (download_content env url ty dir m) = Inr () \<and>
      fst (run_download_task env url ty dir m) = Inr () \<and>
      (\<forall>s. Error s \<notin> set (emitted (run_download_task env url ty dir) m)) \<and>
      (is_downloading m \<or> \<not> isdir env dir \<longrightarrow> download_content env url ty dir m = (Inr (), m))"
      using ret [OF r] by blast
  qed
  show ?thesis
    using init hook none dc ret ev p c e by blast
qed

theorem optional_callbacks_safe_witness:
  "progress_callback silent_manager = PyNone \<and> completion_callback silent_manager = PyNone \<and>
   error_callback silent_manager = PyNone \<and> \<not> isdir scenario_env ''/tmp/nowhere'' \<and>
   run_download_task scenario_env ''https://example.com/x.jpg'' ''image'' ''/tmp/out'' silent_manager \<noteq>
     (Inl (Exception none_not_callable), silent_manager) \<and>
   fst (run_download_task scenario_env ''https://example.com/x.jpg'' ''image'' ''/tmp/out''
          silent_manager) = Inr () \<and>
   events (snd (run_download_task scenario_env ''https://example.com/x.jpg'' ''image'' ''/tmp/out''
                  silent_manager)) = [] \<and>
   events (snd (run_download_task scenario_env ''https://example.com/watch'' ''video'' ''/tmp/out''
                  silent_manager)) = [] \<and>
   download_content scenario_env ''https://example.com/x.jpg'' ''image'' ''/tmp/nowhere'' silent_manager =
     (Inr (), silent_manager)"
proof -
  have h: "progress_callback silent_manager = PyNone" "completion_callback silent_manager = PyNone"
    "error_callback silent_manager = PyNone" "\<not> isdir scenario_env ''/tmp/nowhere''"
    "events silent_manager = []"
    by (simp_all add: silent_manager_simps scenario_env_def)
  have nil: "xs = []" if "\<forall>e \<in> set xs. \<not> is_progress e" "\<forall>p. Completion p \<notin> set xs"
    "\<forall>s. Error s \<notin> set xs" for xs :: "event list"
  proof (cases xs)
    case Nil
    then show ?thesis .
  next
    case (Cons x ys)
    then show ?thesis using that by (cases x) auto
  qed
  note a = optional_callbacks_safe [of "[]" silent_manager _ scenario_env "''https://example.com/x.jpg''"
      "''image''" "''/tmp/out''"]
  note b = optional_callbacks_safe [of "[]" silent_manager _ scenario_env "''https://example.com/watch''"
      "''video''" "''/tmp/out''"]
  note c = optional_callbacks_safe [of "[]" silent_manager _ scenario_env "''https://example.com/x.jpg''"
      "''image''" "''/tmp/nowhere''"]
  have 1: "emitted (run_download_task scenario_env ''https://example.com/x.jpg'' ''image'' ''/tmp/out'') silent_manager = []"
    using a h by (intro nil) simp_all
  have 2: "emitted (run_download_task scenario_env ''https://example.com/watch'' ''video'' ''/tmp/out'') silent_manager = []"
    using b h by (intro nil) simp_all
  have 3: "fst (run_download_task scenario_env ''https://example.com/x.jpg'' ''image'' ''/tmp/out'' silent_manager) = Inr ()"
    using a h by simp
  have 4: "download_content scenario_env ''https://example.com/x.jpg'' ''image'' ''/tmp/nowhere'' silent_manager =
     (Inr (), silent_manager)"
    using c h by simp
  have 5: "events (snd (run_download_task scenario_env ''https://example.com/x.jpg'' ''image'' ''/tmp/out''
                  silent_manager)) = []"
    using a 1 h by simp
  have 6: "events (snd (run_download_task scenario_env ''https://example.com/watch'' ''video'' ''/tmp/out''
                  silent_manager)) = []"
    using b 2 h by simp
  show ?thesis
    using h 3 4 5 6 by auto
qed

subsection \<open>The image scenario\<close>

lemma urlparse_x_jpg:
  "urlparse_netloc_path ''https://example.com/x.jpg'' = (''example.com'', ''/x.jpg'')"
  by code_simp

lemma urlparse_bare_domain:
  "image_filename (snd (urlparse_netloc_path ''https://example.com'')) = ''downloaded_image.jpg''"
  by code_simp

lemma percent_500_1000: "percent_str 500 1000 = Inr ''50.0%''"
  by code_simp

lemma percent_1000_1000: "percent_str 1000 1000 = Inr ''100.0%''"
  by code_simp

lemma py_int_1000: "n = 0 \<or> 4 \<le> n \<Longrightarrow> py_int n ''1000'' = Some 1000"
  by (auto simp: py_int_def py_strip_def is_int_space_def is_digit_def Let_def)

lemma image_target_x_jpg: "image_target ''https://example.com/x.jpg'' ''/tmp/out'' = ''/tmp/out/x.jpg''"
  by (simp add: image_target_def urlparse_x_jpg image_filename_def os_path_basename_def os_path_join_def)

lemma two_chunk_fetch:
  assumes "requests_get env ''https://example.com/x.jpg'' = Inr resp"
    and "http_error resp = None" and "content_length resp = Some ''1000''"
    and "chunks resp = [c1, c2]" and "length c1 = 500" and "length c2 = 500"
    and "stream_error resp = None"
    and "netloc_error env ''example.com'' = None"
    and "int_max_str_digits env = 0 \<or> 4 \<le> int_max_str_digits env"
    and "open_error env ''/tmp/out/x.jpg'' = None"
    and "write_error env ''/tmp/out/x.jpg'' 0 = None"
    and "write_error env ''/tmp/out/x.jpg'' 500 = None"
    and "close_error env ''/tmp/out/x.jpg'' = None"
    and "progress_callback m = returning_handler"
  shows "fst (image_fetch env ''https://example.com/x.jpg'' ''/tmp/out'' m) = Inr ''/tmp/out/x.jpg''"
    and "events (snd (image_fetch env ''https://example.com/x.jpg'' ''/tmp/out'' m)) =
     events m @
     [Progress (progress_dict 1000 500 ''50.0%''), Progress (progress_dict 1000 1000 ''100.0%'')]"
proof -
  let ?url = "''https://example.com/x.jpg''"
  let ?fp = "''/tmp/out/x.jpg''"
  have c: "c1 \<noteq> []" "c2 \<noteq> []" using assms(5,6) by auto
  have up: "urlparse_path env ?url = Inr ''/x.jpg''"
    using assms(8) by (simp add: urlparse_path_def urlparse_x_jpg)
  have fn: "os_path_join ''/tmp/out'' (image_filename ''/x.jpg'') = ?fp"
    by (simp add: image_filename_def os_path_basename_def os_path_join_def)
  have cl: "content_length_int env resp = Inr 1000"
    using assms(3,9) py_int_1000 [of "int_max_str_digits env"] by (simp add: content_length_int_def)
  have wc: "events (snd (write_chunks env ?fp 1000 0 [c1, c2] m')) =
      events m' @ [Progress (progress_dict 1000 500 ''50.0%''), Progress (progress_dict 1000 1000 ''100.0%'')] \<and>
      fst (write_chunks env ?fp 1000 0 [c1, c2] m') = Inr ()"
    if "files m' ?fp = Some []" "progress_callback m' = returning_handler" for m'
    using that c assms(5,6,11,12)
    by (simp add: file_write_def report_progress_alt percent_field_def percent_500_1000
        percent_1000_1000 handler_simps)
  let ?m1 = "m\<lparr>http_calls := http_calls m @ [?url], files := (files m)(?fp \<mapsto> [])\<rparr>"
  have m1: "files ?m1 ?fp = Some []" "progress_callback ?m1 = returning_handler" "events ?m1 = events m"
    using assms(14) by simp_all
  note w = wc [OF m1(1,2)]
  show "fst (image_fetch env ?url ''/tmp/out'' m) = Inr ?fp"
    using assms(1,2,4,7,10,13) up fn cl w m1
    by (simp add: image_fetch_unfold stream_to_file_def with_open_alt py_bind_alt py_check_def
        split: prod.splits)
  show "events (snd (image_fetch env ?url ''/tmp/out'' m)) =
     events m @
     [Progress (progress_dict 1000 500 ''50.0%''), Progress (progress_dict 1000 1000 ''100.0%'')]"
    using assms(1,2,4,7,10,13) up fn cl w m1
    by (simp add: image_fetch_unfold stream_to_file_def with_open_alt py_bind_alt py_check_def
        split: prod.splits)
qed

lemma download_image_events:
  "events (snd (download_image env url dir m)) =
     events (snd (image_fetch env url dir m)) @ image_outcome env url dir m"
  by (simp add: download_image_finally download_image_except_events)

lemma two_chunk_download:
  assumes "requests_get env ''https://example.com/x.jpg'' = Inr resp"
    and "http_error resp = None" and "content_length resp = Some ''1000''"
    and "chunks resp = [c1, c2]" and "length c1 = 500" and "length c2 = 500"
    and "stream_error resp = None"
    and "netloc_error env ''example.com'' = None"
    and "int_max_str_digits env = 0 \<or> 4 \<le> int_max_str_digits env"
    and "open_error env ''/tmp/out/x.jpg'' = None"
    and "write_error env ''/tmp/out/x.jpg'' 0 = None"
    and "write_error env ''/tmp/out/x.jpg'' 500 = None"
    and "close_error env ''/tmp/out/x.jpg'' = None"
    and "progress_callback m = returning_handler" and "completion_callback m = returning_handler"
  shows "events (snd (download_image env ''https://example.com/x.jpg'' ''/tmp/out'' m)) =
     events m @
     [Progress (progress_dict 1000 500 ''50.0%''), Progress (progress_dict 1000 1000 ''100.0%''),
      Completion ''/tmp/out/x.jpg'']"
  using two_chunk_fetch [OF assms(1-14)] assms(15)
  by (simp add: download_image_events image_outcome_def handler_simps)

text \<open>
  The same download with a completion callback that raises: the exception is raised
  inside the \<^verbatim>\<open>try\<close> block, so the error callback is called after the completion
  callback, with the exception of the handler as the error of the download.
\<close>

lemma failing_completion_handler:
  assumes "requests_get env ''https://example.com/x.jpg'' = Inr resp"
    and "http_error resp = None" and "content_length resp = Some ''1000''"
    and "chunks resp = [c1, c2]" and "length c1 = 500" and "length c2 = 500"
    and "stream_error resp = None"
    and "netloc_error env ''example.com'' = None"
    and "int_max_str_digits env = 0 \<or> 4 \<le> int_max_str_digits env"
    and "open_error env ''/tmp/out/x.jpg'' = None"
    and "write_error env ''/tmp/out/x.jpg'' 0 = None"
    and "write_error env ''/tmp/out/x.jpg'' 500 = None"
    and "close_error env ''/tmp/out/x.jpg'' = None"
    and "progress_callback m = returning_handler" and "completion_callback m = failing_handler"
    and "error_callback m = returning_handler"
  shows "events (snd (download_image env ''https://example.com/x.jpg'' ''/tmp/out'' m)) =
     events m @
     [Progress (progress_dict 1000 500 ''50.0%''), Progress (progress_dict 1000 1000 ''100.0%''),
      Completion ''/tmp/out/x.jpg'',
      Error ''Error downloading image from https://example.com/x.jpg: handler failed'']"
  using two_chunk_fetch [OF assms(1-14)] assms(15,16)
  by (simp add: download_image_events image_outcome_def handler_simps image_error_message_def)

text \<open>
  Claim C5. A manager with all three callbacks accepts the image request for
  \<^verbatim>\<open>https://example.com/x.jpg\<close> with destination \<^verbatim>\<open>/tmp/out\<close>. When the response has
  status OK and content length 1000 and its body arrives as two chunks of 500 bytes,
  and the file can be opened, written and closed, the worker delivers two progress
  events, with 500 and then 1000 bytes downloaded and the percentages 50.0% and 100.0%,
  and then one completion with the path \<^verbatim>\<open>/tmp/out/x.jpg\<close>.
\<close>

theorem two_chunk_image_scenario:
  assumes "isdir env ''/tmp/out''"
    and "requests_get env ''https://example.com/x.jpg'' = Inr resp"
    and "http_error resp = None" and "content_length resp = Some ''1000''"
    and "chunks resp = [c1, c2]" and "length c1 = 500" and "length c2 = 500"
    and "stream_error resp = None"
    and "netloc_error env ''example.com'' = None"
    and "int_max_str_digits env = 0 \<or> 4 \<le> int_max_str_digits env"
    and "open_error env ''/tmp/out/x.jpg'' = None"
    and "write_error env ''/tmp/out/x.jpg'' 0 = None"
    and "write_error env ''/tmp/out/x.jpg'' 500 = None"
    and "close_error env ''/tmp/out/x.jpg'' = None"
  shows "events (snd (thread_run env (snd (download_content env ''https://example.com/x.jpg'' ''image''
                                             ''/tmp/out'' listening_manager)))) =
     [Progress [(''status'', PyStr ''downloading''), (''total_bytes'', PyInt 1000),
                (''downloaded_bytes'', PyInt 500), (''_percent_str'', PyStr ''50.0%''),
                (''_eta_str'', PyStr ''N/A'')],
      Progress [(''status'', PyStr ''downloading''), (''total_bytes'', PyInt 1000),
                (''downloaded_bytes'', PyInt 1000), (''_percent_str'', PyStr ''100.0%''),
                (''_eta_str'', PyStr ''N/A'')],
      Completion ''/tmp/out/x.jpg'']"
proof -
  let ?url = "''https://example.com/x.jpg''"
  have dc: "download_content env ?url ''image'' ''/tmp/out'' listening_manager =
      (Inr (), listening_manager\<lparr>is_downloading := True, threads := [(?url, ''image'', ''/tmp/out'')]\<rparr>)"
    using assms(1) by (simp add: download_content_def listening_manager_simps)
  let ?m = "listening_manager\<lparr>is_downloading := True, threads := []\<rparr>"
  have m: "progress_callback ?m = returning_handler" "completion_callback ?m = returning_handler"
    "events ?m = []"
    by (simp_all add: listening_manager_simps)
  from two_chunk_download [OF assms(2-14) m(1,2)] m(3)
  show ?thesis
    by (simp add: dc thread_run_def run_download_task_image progress_dict_def)
qed

theorem two_chunk_image_scenario_witness:
  "isdir scenario_env ''/tmp/out'' \<and>
   requests_get scenario_env ''https://example.com/x.jpg'' = Inr two_chunk_response \<and>
   content_length two_chunk_response = Some ''1000'' \<and>
   map length (chunks two_chunk_response) = [500, 500] \<and>
   events (snd (thread_run scenario_env (snd (download_content scenario_env ''https://example.com/x.jpg''
                                             ''image'' ''/tmp/out'' listening_manager)))) =
     [Progress [(''status'', PyStr ''downloading''), (''total_bytes'', PyInt 1000),
                (''downloaded_bytes'', PyInt 500), (''_percent_str'', PyStr ''50.0%''),
                (''_eta_str'', PyStr ''N/A'')],
      Progress [(''status'', PyStr ''downloading''), (''total_bytes'', PyInt 1000),
                (''downloaded_bytes'', PyInt 1000), (''_percent_str'', PyStr ''100.0%''),
                (''_eta_str'', PyStr ''N/A'')],
      Completion ''/tmp/out/x.jpg'']"
proof -
  have h: "isdir scenario_env ''/tmp/out''"
    "requests_get scenario_env ''https://example.com/x.jpg'' = Inr two_chunk_response"
    "http_error two_chunk_response = None" "content_length two_chunk_response = Some ''1000''"
    "chunks two_chunk_response = [replicate 500 0, replicate 500 0]"
    "length (replicate 500 (0 :: 8 word)) = 500" "length (replicate 500 (0 :: 8 word)) = 500"
    "stream_error two_chunk_response = None"
    "netloc_error scenario_env ''example.com'' = None"
    "int_max_str_digits scenario_env = 0 \<or> 4 \<le> int_max_str_digits scenario_env"
    "open_error scenario_env ''/tmp/out/x.jpg'' = None"
    "write_error scenario_env ''/tmp/out/x.jpg'' 0 = None"
    "write_error scenario_env ''/tmp/out/x.jpg'' 500 = None"
    "close_error scenario_env ''/tmp/out/x.jpg'' = None"
    by (simp_all add: scenario_env_def two_chunk_response_def)
  from two_chunk_image_scenario [OF h] show ?thesis using h(1,2,4,5) by simp
qed

subsection \<open>Progress of the image adapter\<close>

lemma image_progress_part:
  "filter is_progress (emitted (download_image env url dir) m) = emitted (image_fetch env url dir) m"
  using image_progress_ok_progress [OF image_fetch_emitted [of env url m dir]]
    image_outcome_facts(2) [of env url dir m]
  by (simp add: download_image_emitted filter_progress_outcome filter_progress_all)




lemma after_last_slash_no_slash: "CHR ''/'' \<notin> set (after_last_slash p)"
  by (induction p) auto

lemma after_last_slash_suffix:
  "p = after_last_slash p \<or> (\<exists>pre. p = pre @ ''/'' @ after_last_slash p)"
proof (induction p)
  case Nil
  then show ?case by simp
next
  case (Cons c cs)
  show ?case
  proof (cases "CHR ''/'' \<in> set cs")
    case True
    then have "cs \<noteq> after_last_slash cs"
      using after_last_slash_no_slash [of cs] by metis
    then obtain pre where "cs = pre @ ''/'' @ after_last_slash cs" using Cons.IH by blast
    then have "c # cs = (c # pre) @ ''/'' @ after_last_slash (c # cs)" using True by simp
    then show ?thesis by blast
  next
    case False
    show ?thesis
    proof (cases "c = CHR ''/''")
      case True
      then have "c # cs = [] @ ''/'' @ after_last_slash (c # cs)" using False by simp
      then show ?thesis by blast
    next
      case c: False
      then show ?thesis using False by simp
    qed
  qed
qed

lemma image_filename_no_slash: "CHR ''/'' \<notin> set (image_filename p)"
  using after_last_slash_no_slash [of p] by (simp add: image_filename_def os_path_basename_def Let_def)

lemma os_path_join_relative:
  "CHR ''/'' \<notin> set b \<Longrightarrow>
   os_path_join a b = (if a = [] \<or> last a = CHR ''/'' then a @ b else a @ ''/'' @ b)"
  by (cases b) (auto simp: os_path_join_def)

lemma image_fetch_response:
  "fst (image_fetch env url dir m) = Inr fp \<Longrightarrow> \<exists>resp. requests_get env url = Inr resp"
  by (auto simp: image_fetch_unfold split: sum.splits)

lemma completion_event_fetch:
  assumes "Completion p \<in> set (emitted (download_image env url dir) m)"
  shows "fst (image_fetch env url dir m) = Inr p"
proof -
  have "Completion p \<notin> set (emitted (image_fetch env url dir) m)"
    using image_progress_ok_progress [OF image_fetch_emitted [of env url m dir]] by auto
  then have "Completion p \<in> set (image_outcome env url dir m)"
    using assms by (simp add: download_image_emitted)
  then show ?thesis
    by (auto simp: image_outcome_def delivered_def split: sum.splits if_splits)
qed

lemma image_file_written:
  assumes "fst (image_fetch env url dir m) = Inr fp" and "requests_get env url = Inr resp"
  shows "fp = image_target url dir"
    and "files (snd (download_image env url dir m)) (image_target url dir) = Some (concat (chunks resp))"
  using image_fetch_target [OF assms(1)] image_fetch_files [OF assms(2,1)]
    download_image_frame [of env url dir m]
  by simp_all

text \<open>
  Claim C7. The file name of an image is taken from the path component of the parsed
  URL: it is the text after the last slash of the path, and the fixed name
  \<^verbatim>\<open>downloaded_image.jpg\<close> when that text is empty or has no dot. The file path is the
  destination directory, a slash where the directory does not end in one, and the file
  name. The file is written there: when the \<^verbatim>\<open>with\<close> statement of a download has ended
  normally, and so whenever the \<^verbatim>\<open>try\<close> block has ended normally or a completion event
  has been delivered, the file at this path holds the chunks of the response, one after
  the other. A download changes no other file, and a completion event carries this
  path. A bare domain has an empty path and gets the fixed name.
\<close>

theorem image_filename_derivation:
  "(snd (urlparse_netloc_path url) = os_path_basename (snd (urlparse_netloc_path url)) \<or>
    (\<exists>pre. snd (urlparse_netloc_path url) = pre @ ''/'' @ os_path_basename (snd (urlparse_netloc_path url)))) \<and>
   CHR ''/'' \<notin> set (os_path_basename (snd (urlparse_netloc_path url))) \<and>
   image_filename (snd (urlparse_netloc_path url)) =
     (if os_path_basename (snd (urlparse_netloc_path url)) = [] \<or>
         CHR ''.'' \<notin> set (os_path_basename (snd (urlparse_netloc_path url)))
      then ''downloaded_image.jpg''
      else os_path_basename (snd (urlparse_netloc_path url))) \<and>
   image_target url dir =
     (if dir = [] \<or> last dir = CHR ''/''
      then dir @ image_filename (snd (urlparse_netloc_path url))
      else dir @ ''/'' @ image_filename (snd (urlparse_netloc_path url))) \<and>
   (\<forall>fp resp. fst (image_fetch env url dir m) = Inr fp \<and> requests_get env url = Inr resp \<longrightarrow>
      fp = image_target url dir \<and>
      files (snd (download_image env url dir m)) (image_target url dir) = Some (concat (chunks resp))) \<and>
   (\<forall>resp. fst (download_image_try env url dir m) = Inr () \<and> requests_get env url = Inr resp \<longrightarrow>
      files (snd (download_image env url dir m)) (image_target url dir) = Some (concat (chunks resp))) \<and>
   (\<forall>p. p \<noteq> image_target url dir \<longrightarrow> files (snd (download_image env url dir m)) p = files m p) \<and>
   events (snd (download_image env url dir m)) = events m @ emitted (download_image env url dir) m \<and>
   (\<forall>p. Completion p \<in> set (emitted (download_image env url dir) m) \<longrightarrow>
      p = image_target url dir \<and>
      (\<exists>resp. requests_get env url = Inr resp \<and>
         files (snd (download_image env url dir m)) p = Some (concat (chunks resp)))) \<and>
   image_filename (snd (urlparse_netloc_path ''https://example.com'')) = ''downloaded_image.jpg''"
proof -
  have w: "\<forall>fp resp. fst (image_fetch env url dir m) = Inr fp \<and> requests_get env url = Inr resp \<longrightarrow>
      fp = image_target url dir \<and>
      files (snd (download_image env url dir m)) (image_target url dir) = Some (concat (chunks resp))"
    using image_file_written by blast
  have t: "\<forall>resp. fst (download_image_try env url dir m) = Inr () \<and> requests_get env url = Inr resp \<longrightarrow>
      files (snd (download_image env url dir m)) (image_target url dir) = Some (concat (chunks resp))"
  proof (intro allI impI)
    fix resp
    assume a: "fst (download_image_try env url dir m) = Inr () \<and> requests_get env url = Inr resp"
    then obtain fp where "fst (image_fetch env url dir m) = Inr fp"
      by (cases "fst (image_fetch env url dir m)") (simp_all add: download_image_try_result)
    then show "files (snd (download_image env url dir m)) (image_target url dir) =
        Some (concat (chunks resp))"
      using a image_file_written(2) by blast
  qed
  have c: "\<forall>p. Completion p \<in> set (emitted (download_image env url dir) m) \<longrightarrow>
      p = image_target url dir \<and>
      (\<exists>resp. requests_get env url = Inr resp \<and>
         files (snd (download_image env url dir m)) p = Some (concat (chunks resp)))"
  proof (intro allI impI)
    fix p
    assume "Completion p \<in> set (emitted (download_image env url dir) m)"
    then have f: "fst (image_fetch env url dir m) = Inr p" by (rule completion_event_fetch)
    then obtain resp where r: "requests_get env url = Inr resp"
      using image_fetch_response by blast
    show "p = image_target url dir \<and>
      (\<exists>resp. requests_get env url = Inr resp \<and>
         files (snd (download_image env url dir m)) p = Some (concat (chunks resp)))"
      using image_file_written [OF f r] r by auto
  qed
  have n: "(snd (urlparse_netloc_path url) = os_path_basename (snd (urlparse_netloc_path url)) \<or>
    (\<exists>pre. snd (urlparse_netloc_path url) = pre @ ''/'' @ os_path_basename (snd (urlparse_netloc_path url)))) \<and>
   CHR ''/'' \<notin> set (os_path_basename (snd (urlparse_netloc_path url))) \<and>
   image_filename (snd (urlparse_netloc_path url)) =
     (if os_path_basename (snd (urlparse_netloc_path url)) = [] \<or>
         CHR ''.'' \<notin> set (os_path_basename (snd (urlparse_netloc_path url)))
      then ''downloaded_image.jpg''
      else os_path_basename (snd (urlparse_netloc_path url))) \<and>
   image_target url dir =
     (if dir = [] \<or> last dir = CHR ''/''
      then dir @ image_filename (snd (urlparse_netloc_path url))
      else dir @ ''/'' @ image_filename (snd (urlparse_netloc_path url)))"
    using after_last_slash_suffix [of "snd (urlparse_netloc_path url)"]
      after_last_slash_no_slash [of "snd (urlparse_netloc_path url)"]
      os_path_join_relative [OF image_filename_no_slash, of dir "snd (urlparse_netloc_path url)"]
    by (simp add: os_path_basename_def image_filename_def image_target_def Let_def)
  have o: "\<forall>p. p \<noteq> image_target url dir \<longrightarrow> files (snd (download_image env url dir m)) p = files m p"
    using download_image_frame [of env url dir m] by blast
  have e: "events (snd (download_image env url dir m)) = events m @ emitted (download_image env url dir) m"
    by (rule events_extend [OF stable_download_image])
  show ?thesis
    using n w t o e c urlparse_bare_domain by blast
qed

theorem image_filename_derivation_witness:
  "image_target ''https://example.com/x.jpg'' ''/tmp/out'' = ''/tmp/out/x.jpg'' \<and>
   files busy_manager ''/tmp/out/x.jpg'' = None \<and>
   files (snd (download_image scenario_env ''https://example.com/x.jpg'' ''/tmp/out'' busy_manager))
     ''/tmp/out/x.jpg'' = Some (concat (chunks two_chunk_response)) \<and>
   length (concat (chunks two_chunk_response)) = 1000 \<and>
   files (snd (download_image scenario_env ''https://example.com/x.jpg'' ''/tmp/out'' busy_manager))
     ''/tmp/out/y.jpg'' = None \<and>
   Completion ''/tmp/out/x.jpg'' \<in>
     set (emitted (download_image scenario_env ''https://example.com/x.jpg'' ''/tmp/out'') busy_manager)"
proof -
  have t: "image_target ''https://example.com/x.jpg'' ''/tmp/out'' = ''/tmp/out/x.jpg''"
    by (rule image_target_x_jpg)
  have f: "files busy_manager ''/tmp/out/y.jpg'' = None" "files busy_manager ''/tmp/out/x.jpg'' = None"
    by (simp_all add: busy_manager_eq listening_manager_simps)
  have l: "length (concat (chunks two_chunk_response)) = 1000"
    by (simp add: two_chunk_response_def)
  let ?m = "busy_manager\<lparr>events := []\<rparr>"
  have m: "progress_callback ?m = returning_handler" "completion_callback ?m = returning_handler"
    "events ?m = []" "progress_callback busy_manager = returning_handler"
    by (simp_all add: busy_manager_eq listening_manager_simps)
  have s: "requests_get scenario_env ''https://example.com/x.jpg'' = Inr two_chunk_response"
    "http_error two_chunk_response = None" "content_length two_chunk_response = Some ''1000''"
    "chunks two_chunk_response = [replicate 500 0, replicate 500 0]"
    "length (replicate 500 (0 :: 8 word)) = 500" "length (replicate 500 (0 :: 8 word)) = 500"
    "stream_error two_chunk_response = None"
    "netloc_error scenario_env ''example.com'' = None"
    "int_max_str_digits scenario_env = 0 \<or> 4 \<le> int_max_str_digits scenario_env"
    "open_error scenario_env ''/tmp/out/x.jpg'' = None"
    "write_error scenario_env ''/tmp/out/x.jpg'' 0 = None"
    "write_error scenario_env ''/tmp/out/x.jpg'' 500 = None"
    "close_error scenario_env ''/tmp/out/x.jpg'' = None"
    by (simp_all add: scenario_env_def two_chunk_response_def)
  have c: "Completion ''/tmp/out/x.jpg'' \<in>
     set (emitted (download_image scenario_env ''https://example.com/x.jpg'' ''/tmp/out'') busy_manager)"
    using two_chunk_download [OF s m(1,2)] m(3) by (simp add: emitted_def)
  have g: "fst (image_fetch scenario_env ''https://example.com/x.jpg'' ''/tmp/out'' busy_manager) =
      Inr ''/tmp/out/x.jpg''"
    by (rule two_chunk_fetch(1) [OF s m(4)])
  note a = image_filename_derivation [of "''https://example.com/x.jpg''" "''/tmp/out''" scenario_env busy_manager]
  have w: "files (snd (download_image scenario_env ''https://example.com/x.jpg'' ''/tmp/out'' busy_manager))
     ''/tmp/out/x.jpg'' = Some (concat (chunks two_chunk_response))"
    using a g s(1) t by metis
  have y: "files (snd (download_image scenario_env ''https://example.com/x.jpg'' ''/tmp/out'' busy_manager))
     ''/tmp/out/y.jpg'' = None"
    using a t f(1) by auto
  show ?thesis using t f(2) w l y c by blast
qed

lemma progress_bytes_append: "progress_bytes (xs @ ys) = progress_bytes xs @ progress_bytes ys"
  by (simp add: progress_bytes_def List.map_filter_def)

lemma progress_bytes_outcome: "\<forall>e \<in> set xs. is_outcome e \<Longrightarrow> progress_bytes xs = []"
proof (induction xs)
  case Nil
  then show ?case by (simp add: progress_bytes_def map_filter_simps)
next
  case (Cons x xs)
  then show ?case by (cases x) (simp_all add: progress_bytes_def map_filter_simps)
qed

text \<open>
  Claim C8 as stated fails for video and audio requests: the dictionaries of the
  extraction engine reach the progress callback as they are, and their byte counts
  need not grow. Here the engine reports 500 bytes of a first stream and then 100 bytes
  of a second one.
\<close>

theorem engine_progress_not_monotone:
  "\<not> sorted (progress_bytes (emitted (run_download_task scenario_env ''https://example.com/watch''
                                         ''video'' ''/tmp/out'') busy_manager))"
  by (simp add: emitted_def run_download_task_video_audio download_video_audio_alt video_events_def
      video_outcome_def video_run_def scenario_env_def two_stream_run_def busy_manager_eq
      listening_manager_simps handler_simps progress_bytes_def map_filter_simps)

text \<open>
  Claim C8, amended. For every request, the events that the worker delivers are
  progress events followed by outcome events, so no progress event is delivered after an
  outcome; when the completion callback returns for every argument there is at most one
  outcome event, and nothing is delivered after it. For an image request every progress
  event has a byte count, the counts are positive and strictly increasing. For a video
  or audio request the progress events are the dictionaries of the extraction engine,
  unchanged and in its order.
\<close>

theorem progress_ordering:
  "events (snd (run_download_task env url ty dir m)) =
     events m @ emitted (run_download_task env url ty dir) m \<and>
   (\<exists>ps outs. emitted (run_download_task env url ty dir) m = ps @ outs \<and>
      (\<forall>e \<in> set ps. is_progress e) \<and> (\<forall>e \<in> set outs. is_outcome e) \<and>
      ((\<forall>ev. guarded_result (completion_callback m) ev = Inr ()) \<longrightarrow> length outs \<le> 1)) \<and>
   (ty = ''image'' \<longrightarrow>
      sorted_wrt (<) (progress_bytes (emitted (run_download_task env url ty dir) m)) \<and>
      (\<forall>n \<in> set (progress_bytes (emitted (run_download_task env url ty dir) m)). 0 < n) \<and>
      length (progress_bytes (emitted (run_download_task env url ty dir) m)) =
        length (filter is_progress (emitted (run_download_task env url ty dir) m))) \<and>
   ((ty = ''video'' \<or> ty = ''audio'') \<and> truthy (progress_callback m) \<longrightarrow>
      filter is_progress (emitted (run_download_task env url ty dir) m) =
        map Progress (hook_calls (ydl_download env (ydl_opts dir ty) [url] (hook_outcome m))))"
proof -
  have ev: "events (snd (run_download_task env url ty dir m)) =
     events m @ emitted (run_download_task env url ty dir) m"
    by (rule events_extend [OF stable_run_download_task])
  obtain ps where ps: "emitted (run_download_task env url ty dir) m = ps @ task_outcome env url ty dir m"
    "\<forall>e \<in> set ps. is_progress e"
    using run_download_task_emitted by blast
  have st: "\<exists>ps outs. emitted (run_download_task env url ty dir) m = ps @ outs \<and>
      (\<forall>e \<in> set ps. is_progress e) \<and> (\<forall>e \<in> set outs. is_outcome e) \<and>
      ((\<forall>ev. guarded_result (completion_callback m) ev = Inr ()) \<longrightarrow> length outs \<le> 1)"
    using ps task_outcome_facts(2) [of env url ty dir m] task_outcome_facts(3) [of m env url ty dir]
    by blast
  have img: "sorted_wrt (<) (progress_bytes (emitted (run_download_task env url ty dir) m)) \<and>
      (\<forall>n \<in> set (progress_bytes (emitted (run_download_task env url ty dir) m)). 0 < n) \<and>
      length (progress_bytes (emitted (run_download_task env url ty dir) m)) =
        length (filter is_progress (emitted (run_download_task env url ty dir) m))" if ty: "ty = ''image''"
  proof -
    have eq: "run_download_task env url ty dir = download_image env url dir"
      using ty by (auto simp: run_download_task_def fun_eq_iff)
    define prog where "prog = emitted (image_fetch env url dir) m"
    have prog: "emitted (download_image env url dir) m = prog @ image_outcome env url dir m"
      "image_progress_ok env url m prog"
      unfolding prog_def by (rule download_image_emitted, rule image_fetch_emitted)
    have fp: "filter is_progress (emitted (download_image env url dir) m) = prog"
      unfolding prog_def by (rule image_progress_part)
    have pb: "progress_bytes (emitted (download_image env url dir) m) = progress_bytes prog"
      using prog(1) image_outcome_facts(2) [of env url dir m]
      by (simp add: progress_bytes_append progress_bytes_outcome)
    have "\<exists>n (resp :: response). progress_bytes prog = take n (sums_from 0 (chunks resp)) \<and>
        length prog = length (take n (sums_from 0 (chunks resp)))"
    proof (cases "\<exists>resp T. requests_get env url = Inr resp \<and> content_length_int env resp = Inr T")
      case True
      then obtain resp T where rt: "requests_get env url = Inr resp" "content_length_int env resp = Inr T"
        by blast
      then obtain n where n: "map Some prog = map (expected_report T) (take n (sums_from 0 (chunks resp)))"
        using prog(2) by (auto simp: image_progress_ok_def)
      have "progress_bytes prog = take n (sums_from 0 (chunks resp))"
        by (rule expected_reports_bytes [OF n])
      moreover have "length prog = length (take n (sums_from 0 (chunks resp)))"
        using n by (metis length_map)
      ultimately show ?thesis by blast
    next
      case False
      then have "prog = []" using prog(2)
        by (auto simp: image_progress_ok_def split: sum.splits)
      then have "progress_bytes prog = take 0 (sums_from 0 (chunks two_chunk_response)) \<and>
        length prog = length (take 0 (sums_from 0 (chunks two_chunk_response)))"
        by (simp add: progress_bytes_def map_filter_simps)
      then show ?thesis by blast
    qed
    then obtain n and resp :: response where b: "progress_bytes prog = take n (sums_from 0 (chunks resp))"
      "length prog = length (take n (sums_from 0 (chunks resp)))"
      by blast
    have "sorted_wrt (<) (take n (sums_from 0 (chunks resp)))"
      using sums_from_increasing [of 0 "chunks resp"] by (rule sorted_wrt_take)
    moreover have "\<forall>x \<in> set (take n (sums_from 0 (chunks resp))). 0 < x"
      using sums_from_greater [of _ 0 "chunks resp"] by (meson in_set_takeD)
    ultimately show ?thesis using b pb fp eq by simp
  qed
  have vid: "filter is_progress (emitted (run_download_task env url ty dir) m) =
        map Progress (hook_calls (ydl_download env (ydl_opts dir ty) [url] (hook_outcome m)))"
    if "ty = ''video'' \<or> ty = ''audio''" "truthy (progress_callback m)"
  proof -
    have eq: "run_download_task env url ty dir = download_video_audio env url dir ty"
      using that(1) by (auto simp: run_download_task_def fun_eq_iff)
    have "filter is_progress (map Progress xs) = map Progress xs" for xs :: "pydict list"
      by (induction xs) simp_all
    then show ?thesis
      using that(2) video_outcome_facts(2) [of env url dir ty m]
      by (simp add: eq download_video_audio_emitted video_events_def video_run_def
          filter_progress_outcome)
  qed
  show ?thesis using ev st img vid by blast
qed

theorem progress_ordering_witness:
  "progress_bytes (emitted (run_download_task scenario_env ''https://example.com/x.jpg'' ''image''
                              ''/tmp/out'') busy_manager) = [500, 1000] \<and>
   sorted_wrt (<) (progress_bytes (emitted (run_download_task scenario_env ''https://example.com/x.jpg''
                                              ''image'' ''/tmp/out'') busy_manager)) \<and>
   truthy (progress_callback busy_manager) \<and>
   filter is_progress (emitted (run_download_task scenario_env ''https://example.com/watch'' ''video''
                                  ''/tmp/out'') busy_manager) =
     map Progress (hook_calls two_stream_run)"
proof -
  have h: "truthy (progress_callback busy_manager)" "''image'' = ''image''" "''video'' = ''video''"
    by (simp_all add: busy_manager_eq listening_manager_simps handler_simps)
  have y: "ydl_download scenario_env (ydl_opts ''/tmp/out'' ''video'') [''https://example.com/watch'']
      (hook_outcome busy_manager) = two_stream_run"
    by (simp add: scenario_env_def)
  let ?m = "busy_manager\<lparr>events := []\<rparr>"
  have m: "progress_callback ?m = returning_handler" "completion_callback ?m = returning_handler"
    "events ?m = []"
    by (simp_all add: busy_manager_eq listening_manager_simps)
  have s: "requests_get scenario_env ''https://example.com/x.jpg'' = Inr two_chunk_response"
    "http_error two_chunk_response = None" "content_length two_chunk_response = Some ''1000''"
    "chunks two_chunk_response = [replicate 500 0, replicate 500 0]"
    "length (replicate 500 (0 :: 8 word)) = 500" "length (replicate 500 (0 :: 8 word)) = 500"
    "stream_error two_chunk_response = None"
    "netloc_error scenario_env ''example.com'' = None"
    "int_max_str_digits scenario_env = 0 \<or> 4 \<le> int_max_str_digits scenario_env"
    "open_error scenario_env ''/tmp/out/x.jpg'' = None"
    "write_error scenario_env ''/tmp/out/x.jpg'' 0 = None"
    "write_error scenario_env ''/tmp/out/x.jpg'' 500 = None"
    "close_error scenario_env ''/tmp/out/x.jpg'' = None"
    by (simp_all add: scenario_env_def two_chunk_response_def)
  have b: "progress_bytes (emitted (run_download_task scenario_env ''https://example.com/x.jpg'' ''image''
                              ''/tmp/out'') busy_manager) = [500, 1000]"
    using two_chunk_download [OF s m(1,2)] m(3)
    by (simp add: emitted_def run_download_task_image progress_bytes_def map_filter_simps progress_dict_def)
  note a = progress_ordering [of scenario_env "''https://example.com/x.jpg''" "''image''" "''/tmp/out''" busy_manager]
  note v = progress_ordering [of scenario_env "''https://example.com/watch''" "''video''" "''/tmp/out''" busy_manager]
  show ?thesis using a v h y b by simp
qed

end
